theory Spec2Isabelle
  imports Complex_Main "HOL-Library.AList"
begin

section \<open>Python values used by the MultiProcessorSiteDirector\<close>

text \<open>
  The agent is Python 2 code. Exceptions are values of \<open>exn\<close>; the DIRAC return
  structures \<open>S_OK(value)\<close> and \<open>S_ERROR(message)\<close> are the two constructors of
  \<open>result\<close>. A method either returns such a structure or raises.
\<close>

datatype exn = KeyError | ValueError | AttributeError | TypeError
  | ZeroDivisionError | RuntimeError | NameError

datatype 'a result = S_OK 'a | S_ERROR string

datatype outcome = Returned "unit result" | Raised exn

text \<open>
  Configuration values are strings or integers. \<open>truthy\<close> is the truth value Python
  gives them in \<open>if v:\<close>, an absent value standing for \<open>None\<close>.
\<close>

datatype pyval = PyInt int | PyStr string

fun truthy :: "pyval option \<Rightarrow> bool" where
  "truthy None = False"
| "truthy (Some (PyInt i)) = (i \<noteq> 0)"
| "truthy (Some (PyStr s)) = (s \<noteq> [])"

definition lower_char :: "char \<Rightarrow> char" where
  "lower_char c =
     (case map_of (zip ''ABCDEFGHIJKLMNOPQRSTUVWXYZ'' ''abcdefghijklmnopqrstuvwxyz'') c of
        None \<Rightarrow> c | Some d \<Rightarrow> d)"

definition lower :: "string \<Rightarrow> string" where
  "lower s = map lower_char s"

definition digits :: string where
  "digits = ''0123456789''"

definition isdigit :: "char \<Rightarrow> bool" where
  "isdigit c = (c \<in> set digits)"

definition isspace :: "char \<Rightarrow> bool" where
  "isspace c = (c \<in> set [CHR '' '', CHR 0x09, CHR 0x0A, CHR 0x0B, CHR 0x0C, CHR 0x0D])"

definition digit_val :: "char \<Rightarrow> nat" where
  "digit_val c = (case map_of (zip digits [0 ..< 10]) c of None \<Rightarrow> 0 | Some d \<Rightarrow> d)"

definition digits_val :: "string \<Rightarrow> nat" where
  "digits_val ds = foldl (\<lambda>acc c. 10 * acc + digit_val c) 0 ds"

definition strip :: "string \<Rightarrow> string" where
  "strip s = rev (dropWhile isspace (rev (dropWhile isspace s)))"

text \<open>
  \<open>int(v)\<close>: an integer is itself; a string is a decimal literal, an optional sign and
  at least one digit between optional white space, and anything else raises ValueError.
\<close>

definition unsigned_int :: "string \<Rightarrow> exn + int" where
  "unsigned_int ds =
     (if ds \<noteq> [] \<and> list_all isdigit ds then Inr (int (digits_val ds)) else Inl ValueError)"

definition py_int :: "pyval \<Rightarrow> exn + int" where
  "py_int v =
     (case v of
        PyInt i \<Rightarrow> Inr i
      | PyStr s \<Rightarrow>
          (case strip s of
             [] \<Rightarrow> Inl ValueError
           | c # cs \<Rightarrow>
               if c = CHR ''-'' then map_sum id uminus (unsigned_int cs)
               else if c = CHR ''+'' then unsigned_int cs
               else unsigned_int (c # cs)))"

text \<open>\<open>'%d' % n\<close>: the decimal digits of \<open>n\<close>, after a minus sign when it is negative.\<close>

definition digit_char :: "nat \<Rightarrow> char" where
  "digit_char d = digits ! d"

fun show_nat :: "nat \<Rightarrow> string" where
  "show_nat n = (if n < 10 then [digit_char n] else show_nat (n div 10) @ [digit_char (n mod 10)])"

declare show_nat.simps [simp del]

definition show_int :: "int \<Rightarrow> string" where
  "show_int i = (if i < 0 then CHR ''-'' # show_nat (nat (- i)) else show_nat (nat i))"

definition processorsTag :: "int \<Rightarrow> string" where
  "processorsTag processors = show_int processors @ ''Processors''"

text \<open>
  \<open>re.match(r'^(?P<processors>[0-9]+)Processors$', tag)\<close>: the digits of the group when
  the tag matches. In Python \<open>$\<close> also matches before a newline that ends the string.
\<close>

definition matchProcessors :: "string \<Rightarrow> string option" where
  "matchProcessors tag =
     (let ds = takeWhile isdigit tag; rest = dropWhile isdigit tag
      in if ds \<noteq> [] \<and> (rest = ''Processors'' \<or> rest = ''Processors'' @ [CHR 0x0A])
         then Some ds else None)"

section \<open>The queue catalog: getQueues\<close>

text \<open>
  \<open>ParametersDict\<close> is a free-form dictionary; the record has one optional field for
  each key the agent reads, \<open>None\<close> for a key that is absent. \<open>ceDef\<close> is the
  description \<open>resourceDict[site][ce]\<close> of the computing element.
\<close>

record parameters =
  MaxProcessors :: "pyval option"
  WholeNode :: "pyval option"
  Tags :: "string list option"
  CPUTime :: "pyval option"

record ceDef =
  ceMaxProcessors :: "pyval option"
  ceWholeNode :: "pyval option"

record queue =
  CEName :: string
  CEType :: string
  QueueName :: string
  Site :: string
  Platform :: string
  ParametersDict :: parameters

type_synonym queueDict = "(string \<times> queue) list"

type_synonym resourceDict = "string \<rightharpoonup> (string \<rightharpoonup> ceDef)"

text \<open>Lines 32 to 39: the processor tags, appended to the tags the queue already has.\<close>

definition maxProcessorsValue :: "ceDef \<Rightarrow> parameters \<Rightarrow> pyval option" where
  "maxProcessorsValue cd p =
     (case MaxProcessors p of Some v \<Rightarrow> Some v | None \<Rightarrow> ceMaxProcessors cd)"

definition tagsOf :: "parameters \<Rightarrow> string list" where
  "tagsOf p = (case Tags p of None \<Rightarrow> [] | Some ts \<Rightarrow> ts)"

definition addProcessorsTags :: "ceDef \<Rightarrow> parameters \<Rightarrow> exn + parameters" where
  "addProcessorsTags cd p =
     (let maxProcessors = maxProcessorsValue cd p
      in if truthy maxProcessors then
           (case py_int (the maxProcessors) of
              Inl e \<Rightarrow> Inl e
            | Inr n \<Rightarrow>
                (let processorsTags = map processorsTag [1 .. n]
                 in if processorsTags \<noteq> []
                    then Inr (p\<lparr>Tags := Some (tagsOf p @ processorsTags)\<rparr>)
                    else Inr p))
         else Inr p)"

text \<open>Lines 41 to 45: the whole-node tag. \<open>lower\<close> is a method of strings only.\<close>

definition wholeNodeFlag :: "ceDef \<Rightarrow> parameters \<Rightarrow> pyval" where
  "wholeNodeFlag cd p =
     (let ceWholeNode = (case ceWholeNode cd of Some v \<Rightarrow> v | None \<Rightarrow> PyStr ''false'')
      in case WholeNode p of Some v \<Rightarrow> v | None \<Rightarrow> ceWholeNode)"

definition addWholeNodeTag :: "ceDef \<Rightarrow> parameters \<Rightarrow> exn + parameters" where
  "addWholeNodeTag cd p =
     (case wholeNodeFlag cd p of
        PyInt i \<Rightarrow> Inl AttributeError
      | PyStr wholeNode \<Rightarrow>
          if lower wholeNode \<in> set [''yes'', ''true'']
          then Inr (p\<lparr>Tags := Some (tagsOf p @ [''WholeNode''])\<rparr>)
          else Inr p)"

definition deriveTags :: "ceDef \<Rightarrow> parameters \<Rightarrow> exn + parameters" where
  "deriveTags cd p =
     (case addProcessorsTags cd p of Inl e \<Rightarrow> Inl e | Inr p' \<Rightarrow> addWholeNodeTag cd p')"

text \<open>Lines 47 to 52: whether the queue stays in the catalog.\<close>

definition retained :: "parameters \<Rightarrow> bool" where
  "retained p =
     (case Tags p of
        None \<Rightarrow> False
      | Some tags \<Rightarrow> \<not> (''2Processors'' \<notin> set tags \<and> ''WholeNode'' \<notin> set tags))"

text \<open>
  The body of the loop for one queue: the updated catalog, and whether the queue was
  deleted from it. When the body raises, the catalog is as the body left it: the
  processor tags are already stored when the whole-node flag turns out not to be a
  string.
\<close>

definition getQueues_body :: "resourceDict \<Rightarrow> string \<Rightarrow> queueDict \<Rightarrow>
    (exn \<times> queueDict) + (queueDict \<times> bool)" where
  "getQueues_body rd queueName qd =
     (case map_of qd queueName of
        None \<Rightarrow> Inl (KeyError, qd)
      | Some q \<Rightarrow>
          (case rd (Site q) of
             None \<Rightarrow> Inl (KeyError, qd)
           | Some ces \<Rightarrow>
               (case ces (CEName q) of
                  None \<Rightarrow> Inl (KeyError, qd)
                | Some cd \<Rightarrow>
                    (case deriveTags cd (ParametersDict q) of
                       Inl e \<Rightarrow>
                         Inl (e, case addProcessorsTags cd (ParametersDict q) of
                                   Inl x \<Rightarrow> qd
                                 | Inr p1 \<Rightarrow> AList.update queueName (q\<lparr>ParametersDict := p1\<rparr>) qd)
                     | Inr p' \<Rightarrow>
                         if retained p'
                         then Inr (AList.update queueName (q\<lparr>ParametersDict := p'\<rparr>) qd, False)
                         else Inr (AList.delete queueName qd, True)))))"

text \<open>
  \<open>for queueName in self.queueDict\<close> iterates over the dictionary itself, not over a
  copy of its keys. A Python dictionary iterator compares the size of the dictionary
  with the size it had when the iteration started each time the next key is asked for,
  also when no key is left, and raises RuntimeError when they differ. The loop only
  ever deletes, so the flag \<open>changed\<close> records that the size differs. What the agent
  holds afterwards is the catalog as the loop left it.
\<close>

fun getQueues_loop :: "resourceDict \<Rightarrow> string list \<Rightarrow> bool \<Rightarrow> queueDict \<Rightarrow> outcome \<times> queueDict" where
  "getQueues_loop rd [] changed qd =
     (if changed then (Raised RuntimeError, qd) else (Returned (S_OK ()), qd))"
| "getQueues_loop rd (queueName # rest) changed qd =
     (if changed then (Raised RuntimeError, qd)
      else (case getQueues_body rd queueName qd of
              Inl (e, qd') \<Rightarrow> (Raised e, qd')
            | Inr (qd', deleted) \<Rightarrow> getQueues_loop rd rest deleted qd'))"

text \<open>
  \<open>SiteDirector.getQueues\<close> belongs to the base class: \<open>base\<close> is what it returned and
  \<open>qd\<close> the catalog it built.
\<close>

definition getQueues :: "unit result \<Rightarrow> resourceDict \<Rightarrow> queueDict \<Rightarrow> outcome \<times> queueDict" where
  "getQueues base rd qd =
     (case base of
        S_ERROR m \<Rightarrow> (Returned (S_ERROR m), qd)
      | S_OK u \<Rightarrow> getQueues_loop rd (map fst qd) False qd)"

text \<open>
  The integer that bounds the processor tags: the effective \<open>MaxProcessors\<close> value
  converted by \<open>int\<close>, and 0 when the value is absent or false. The whole-node flag is
  true for the strings \<open>yes\<close> and \<open>true\<close>, in any case of the letters.
\<close>

definition maxProcessorsCount :: "ceDef \<Rightarrow> parameters \<Rightarrow> int" where
  "maxProcessorsCount cd p =
     (if truthy (maxProcessorsValue cd p)
      then (case py_int (the (maxProcessorsValue cd p)) of Inl e \<Rightarrow> 0 | Inr n \<Rightarrow> n) else 0)"

definition wholeNodeTruthy :: "pyval \<Rightarrow> bool" where
  "wholeNodeTruthy v = (case v of PyInt i \<Rightarrow> False | PyStr s \<Rightarrow> lower s = ''yes'' \<or> lower s = ''true'')"

section \<open>The submission cycle: submitJobs\<close>

subsection \<open>Data of the cycle\<close>

text \<open>
  A task queue as the Matcher describes it. \<open>Sites\<close> and \<open>Tags\<close> may be absent;
  of \<open>JobTypes\<close> the agent only tests the presence; \<open>Jobs\<close> and \<open>Priority\<close> are
  always there. The reply of the Matcher is a dictionary from task queue identifiers
  to such descriptions, here an association list in the order in which Python iterates
  over it.
\<close>

text \<open>
  Priorities and random numbers are Python floats, that is IEEE doubles: finite numbers,
  the two infinities and NaN. Their arithmetic rounds and overflows. It is not written
  out here: the addition, the multiplication and the comparison \<open><\<close> of floats are
  three functions that come with the services below, and whatever is proved about the
  assignment of pilots holds for every choice of them, the arithmetic of the doubles
  included.
\<close>

datatype pyfloat = Finite real | PlusInf | MinusInf | NaN

record taskQueue =
  tqSites :: "string list option"
  tqJobTypes :: bool
  tqJobs :: int
  tqTags :: "string list option"
  tqPriority :: pyfloat

type_synonym taskQueueDict = "(nat \<times> taskQueue) list"

text \<open>
  The requirements sent to the Matcher, with the keys that \<open>submitJobs\<close> sets itself.
  The entries that come from \<open>ce.getParameterDict()\<close>, the setup and the submit pools
  are passed on unchanged and are not part of the model.
\<close>

record criteria =
  GridCE :: "string option"
  JobType :: "string option"
  Community :: "string option"
  OwnerGroup :: "string list option"
  PlatformList :: "string list"
  SiteList :: "string list option"
  Tag :: "string list"

text \<open>Every call of a service outside the agent is recorded, in the order of the calls.\<close>

datatype event =
    CompatiblePlatforms "string list"
  | MatchingTaskQueues criteria
  | CountPilots "nat list"
  | UsableSites
  | SiteMask
  | Shuffle
  | PilotProxy int
  | SetProxy string int
  | QueueSlots string
  | Executable string int
  | SubmitJob string string int int
  | Unlink string
  | Random
  | AddPilotTQReference "string list" nat
  | SetPilotStatus string

text \<open>
  The services are not part of the agent. Each one is a function of the calls made so
  far and of its arguments, so its answers may change from one call to the next.
  \<open>getQueueSlots\<close> and \<open>getExecutable\<close> are methods of the base class SiteDirector:
  the first also receives the number of slots held in memory for the queue and returns
  it updated, the second returns the pilot script and the number of pilots of the chunk.
  A call whose answer the agent only writes to its log (the first \<open>countPilots\<close>,
  \<open>setPilotStatus\<close>) is recorded as a call and needs no answer.
\<close>

record env =
  getCompatiblePlatforms :: "event list \<Rightarrow> string list \<Rightarrow> string list result"
  getMatchingTaskQueues :: "event list \<Rightarrow> criteria \<Rightarrow> taskQueueDict result"
  countPilots :: "event list \<Rightarrow> nat list \<Rightarrow> int result"
  getUsableSites :: "event list \<Rightarrow> string list result"
  getSiteMask :: "event list \<Rightarrow> string list result"
  random_shuffle :: "event list \<Rightarrow> string list \<Rightarrow> string list"
  getPilotProxyFromDIRACGroup :: "event list \<Rightarrow> int \<Rightarrow> string result"
  getQueueSlots :: "event list \<Rightarrow> string \<Rightarrow> int \<Rightarrow> int \<times> int"
  getExecutable :: "event list \<Rightarrow> string \<Rightarrow> int \<Rightarrow> (string \<times> int) result"
  submitJob :: "event list \<Rightarrow> string \<Rightarrow> string \<Rightarrow> int \<Rightarrow> int \<Rightarrow> string list result"
  random_random :: "event list \<Rightarrow> pyfloat"
  float_add :: "pyfloat \<Rightarrow> pyfloat \<Rightarrow> pyfloat"
  float_mul :: "pyfloat \<Rightarrow> pyfloat \<Rightarrow> pyfloat"
  float_less :: "pyfloat \<Rightarrow> pyfloat \<Rightarrow> bool"
  addPilotTQReference :: "event list \<Rightarrow> string list \<Rightarrow> nat \<Rightarrow> unit result"

text \<open>The attributes of the agent that \<open>submitJobs\<close> reads.\<close>

record director =
  vo :: string
  voGroups :: "string list"
  platforms :: "string list"
  sites :: "string list option"
  rssFlag :: bool
  failedQueueCycleFactor :: int
  maxQueueLength :: int
  pilotWaitingFlag :: bool
  maxPilotsToSubmit :: int
  queueDict :: queueDict

text \<open>
  What a cycle changes: the failure counters (\<open>self.failedQueues\<close>, a dictionary with
  default 0), the slots held in memory for each queue, the calls made, and three local
  variables of \<open>submitJobs\<close> that live across its loops. \<open>tqID\<close> is \<open>None\<close> as long as
  the variable is not bound.
\<close>

record state =
  failedQueues :: "string \<Rightarrow> int"
  queueSlots :: "string \<Rightarrow> int"
  trace :: "event list"
  tqID :: "nat option"
  totalSubmittedPilots :: int
  matchedQueues :: int

definition emit :: "event \<Rightarrow> state \<Rightarrow> state" where
  "emit ev st = st\<lparr>trace := trace st @ [ev]\<rparr>"

definition failQueue :: "string \<Rightarrow> state \<Rightarrow> state" where
  "failQueue queue st = st\<lparr>failedQueues := (failedQueues st)(queue := failedQueues st queue + 1)\<rparr>"

text \<open>
  A step of a loop either goes on with the next step (\<open>Next\<close>, Python's \<open>continue\<close> or
  the end of the body) or leaves \<open>submitJobs\<close> (\<open>Stop\<close>, a \<open>return\<close> or an exception).
\<close>

datatype 'a flow = Next 'a | Stop outcome state

subsection \<open>Lines 93 to 111: the sites of the waiting jobs\<close>

record demand =
  jobSites :: "string set"
  anySite :: bool
  testSites :: "string set"
  totalWaitingJobs :: int

definition addJobSite :: "demand \<Rightarrow> string \<Rightarrow> demand" where
  "addJobSite d site =
     (if lower site \<noteq> ''any'' then d\<lparr>jobSites := insert site (jobSites d)\<rparr>
      else d\<lparr>anySite := True\<rparr>)"

definition addTestSite :: "demand \<Rightarrow> string \<Rightarrow> demand" where
  "addTestSite d site =
     (if lower site \<noteq> ''any'' then d\<lparr>testSites := insert site (testSites d)\<rparr> else d)"

definition demandStep :: "demand \<Rightarrow> nat \<times> taskQueue \<Rightarrow> demand" where
  "demandStep d e =
     (let tq = snd e;
          d1 = (case tqSites tq of
                  Some ss \<Rightarrow> foldl addJobSite d ss
                | None \<Rightarrow> d\<lparr>anySite := True\<rparr>);
          d2 = (if tqJobTypes tq
                then (case tqSites tq of Some ss \<Rightarrow> foldl addTestSite d1 ss | None \<Rightarrow> d1)
                else d1)
      in d2\<lparr>totalWaitingJobs := totalWaitingJobs d2 + tqJobs tq\<rparr>)"

definition demandOf :: "taskQueueDict \<Rightarrow> demand" where
  "demandOf tqs =
     foldl demandStep \<lparr>jobSites = {}, anySite = False, testSites = {}, totalWaitingJobs = 0\<rparr> tqs"

subsection \<open>Lines 336 to 351: the assignment of pilots to task queues\<close>

text \<open>
  The list of the task queues of the tag with the running sum of their priorities, and
  the total, each sum being a float addition. \<open>taskQueueDict[tq]\<close> raises KeyError for
  an unknown identifier.
\<close>

fun tqPriorityList :: "env \<Rightarrow> taskQueueDict \<Rightarrow> nat list \<Rightarrow> pyfloat \<Rightarrow>
    ((nat \<times> pyfloat) list \<times> pyfloat) option" where
  "tqPriorityList e d [] sumPriority = Some ([], sumPriority)"
| "tqPriorityList e d (tq # tqs) sumPriority =
     (case map_of d tq of
        None \<Rightarrow> None
      | Some t \<Rightarrow>
          (let s = float_add e sumPriority (tqPriority t)
           in case tqPriorityList e d tqs s of
                None \<Rightarrow> None
              | Some (l, sumAll) \<Rightarrow> Some ((tq, s) # l, sumAll)))"

text \<open>
  The scan \<open>for tq, prio in tqPriorityList: if rndm < prio: tqID = tq; break\<close>. When no
  entry is above \<open>rndm\<close> in the comparison of floats, the variable \<open>tqID\<close> keeps the
  value \<open>cur\<close> it had before.
\<close>

fun selectTQ :: "env \<Rightarrow> (nat \<times> pyfloat) list \<Rightarrow> pyfloat \<Rightarrow> nat option \<Rightarrow> nat option" where
  "selectTQ e [] rndm cur = cur"
| "selectTQ e ((tq, prio) # rest) rndm cur =
     (if float_less e rndm prio then Some tq else selectTQ e rest rndm cur)"

definition appendPilot :: "nat \<Rightarrow> string \<Rightarrow> (nat \<times> string list) list \<Rightarrow> (nat \<times> string list) list" where
  "appendPilot t pilotID tqDict =
     (case map_of tqDict t of
        None \<Rightarrow> tqDict @ [(t, [pilotID])]
      | Some ps \<Rightarrow> AList.update t (ps @ [pilotID]) tqDict)"

text \<open>
  \<open>for pilotID in pilotList\<close>: one random number for each pilot, multiplied as a float
  by the total. Reading \<open>tqID\<close> while it is unbound raises NameError.
\<close>

fun assignPilots :: "env \<Rightarrow> (nat \<times> pyfloat) list \<Rightarrow> pyfloat \<Rightarrow> string list \<Rightarrow>
    (nat \<times> string list) list \<Rightarrow> state \<Rightarrow> (exn \<times> state) + ((nat \<times> string list) list \<times> state)" where
  "assignPilots e pl sumPriority [] tqDict st = Inr (tqDict, st)"
| "assignPilots e pl sumPriority (pilotID # pilots) tqDict st =
     (let rndm = float_mul e (random_random e (trace st)) sumPriority;
          st1 = emit Random st
      in case selectTQ e pl rndm (tqID st1) of
           None \<Rightarrow> Inl (NameError, st1)
         | Some t \<Rightarrow> assignPilots e pl sumPriority pilots (appendPilot t pilotID tqDict) (st1\<lparr>tqID := Some t\<rparr>))"

subsection \<open>Lines 353 to 371: the records in the PilotAgentsDB\<close>

text \<open>
  \<open>for tqID, pilotList in tqDict.items()\<close> binds \<open>tqID\<close> again. The model visits the
  task queues in the order in which they received their first pilot.
\<close>

fun setStatuses :: "env \<Rightarrow> string list \<Rightarrow> state \<Rightarrow> state" where
  "setStatuses e [] st = st"
| "setStatuses e (pilot # pilots) st = setStatuses e pilots (emit (SetPilotStatus pilot) st)"

fun recordPilots :: "env \<Rightarrow> (nat \<times> string list) list \<Rightarrow> state \<Rightarrow> state" where
  "recordPilots e [] st = st"
| "recordPilots e ((t, pilotList) # rest) st =
     (let st1 = st\<lparr>tqID := Some t\<rparr>;
          r = addPilotTQReference e (trace st1) pilotList t;
          st2 = emit (AddPilotTQReference pilotList t) st1
      in case r of
           S_ERROR m \<Rightarrow> recordPilots e rest st2
         | S_OK u \<Rightarrow> recordPilots e rest (setStatuses e pilotList st2))"

subsection \<open>Lines 300 to 371: the submission loop of a tag\<close>

text \<open>
  One pass through the body of \<open>while pilotsToSubmit > 0\<close>. The configuration of the
  loop is \<open>pilotsToSubmit\<close>, \<open>queueSubmittedPilots\<close> and the state.
\<close>

type_synonym loopConf = "int \<times> int \<times> state"

definition submitBody :: "env \<Rightarrow> string \<Rightarrow> queue \<Rightarrow> taskQueueDict \<Rightarrow> nat list \<Rightarrow> int \<Rightarrow>
    loopConf \<Rightarrow> loopConf flow" where
  "submitBody e queue q taskQueueDict tagTqIDList processors c =
     (case c of (pilotsToSubmit, queueSubmittedPilots, st) \<Rightarrow>
        (let r1 = getExecutable e (trace st) queue pilotsToSubmit;
             st1 = emit (Executable queue pilotsToSubmit) st
         in case r1 of
              S_ERROR m \<Rightarrow> Stop (Returned (S_ERROR m)) st1
            | S_OK (executable, pilotSubmissionChunk) \<Rightarrow>
                (let r2 = submitJob e (trace st1) queue executable pilotSubmissionChunk processors;
                     st2 = emit (SubmitJob queue executable pilotSubmissionChunk processors) st1;
                     st3 = (if CEType q \<noteq> ''HTCondorCE'' then emit (Unlink executable) st2 else st2)
                 in case r2 of
                      S_ERROR m \<Rightarrow> Next (0, queueSubmittedPilots, failQueue queue st3)
                    | S_OK pilotList \<Rightarrow>
                        (let st4 = st3\<lparr>queueSlots := (queueSlots st3)
                                          (queue := queueSlots st3 queue - int (length pilotList)),
                                        totalSubmittedPilots :=
                                          totalSubmittedPilots st3 + int (length pilotList)\<rparr>
                         in case tqPriorityList e taskQueueDict tagTqIDList (Finite 0) of
                              None \<Rightarrow> Stop (Raised KeyError) st4
                            | Some (pl, sumPriority) \<Rightarrow>
                                (case assignPilots e pl sumPriority pilotList [] (emit Random st4) of
                                   Inl (x, st5) \<Rightarrow> Stop (Raised x) st5
                                 | Inr (tqDict, st5) \<Rightarrow>
                                     Next (pilotsToSubmit - pilotSubmissionChunk,
                                           queueSubmittedPilots + pilotSubmissionChunk,
                                           recordPilots e tqDict st5))))))"

text \<open>
  The loop runs as long as \<open>pilotsToSubmit\<close> is positive, which the chunks decide. The
  first argument bounds the number of passes: \<open>None\<close> means that the loop was still
  running when the bound was reached.
\<close>

fun submitLoop :: "nat \<Rightarrow> env \<Rightarrow> string \<Rightarrow> queue \<Rightarrow> taskQueueDict \<Rightarrow> nat list \<Rightarrow> int \<Rightarrow>
    loopConf \<Rightarrow> loopConf flow option" where
  "submitLoop 0 e queue q d ids processors c =
     (if fst c > 0 then None else Some (Next c))"
| "submitLoop (Suc n) e queue q d ids processors c =
     (if fst c > 0
      then (case submitBody e queue q d ids processors c of
              Next c' \<Rightarrow> submitLoop n e queue q d ids processors c'
            | Stop out st \<Rightarrow> Some (Stop out st))
      else Some (Next c))"

text \<open>The configuration at the head of the loop after \<open>n\<close> passes, when it makes that many.\<close>

fun loopIter :: "nat \<Rightarrow> env \<Rightarrow> string \<Rightarrow> queue \<Rightarrow> taskQueueDict \<Rightarrow> nat list \<Rightarrow> int \<Rightarrow>
    loopConf \<Rightarrow> loopConf option" where
  "loopIter 0 e queue q d ids processors c = Some c"
| "loopIter (Suc n) e queue q d ids processors c =
     (if fst c > 0
      then (case submitBody e queue q d ids processors c of
              Next c' \<Rightarrow> loopIter n e queue q d ids processors c'
            | Stop out st \<Rightarrow> None)
      else None)"

subsection \<open>Lines 245 to 298: the budget of a tag\<close>

definition processorsOf :: "string \<Rightarrow> int" where
  "processorsOf tag =
     (if tag = ''WholeNode'' then - 1
      else (case matchProcessors tag of Some ds \<Rightarrow> int (digits_val ds) | None \<Rightarrow> 1))"

text \<open>Lines 257 to 268: a failed count of the waiting pilots counts as no waiting pilot.\<close>

definition waitingPilots :: "env \<Rightarrow> director \<Rightarrow> nat list \<Rightarrow> state \<Rightarrow> int \<times> state" where
  "waitingPilots e self tagTqIDList st =
     (if pilotWaitingFlag self
      then (case countPilots e (trace st) tagTqIDList of
              S_ERROR m \<Rightarrow> (0, emit (CountPilots tagTqIDList) st)
            | S_OK v \<Rightarrow> (v, emit (CountPilots tagTqIDList) st))
      else (0, st))"

text \<open>Lines 293 and 298.\<close>

definition pilotsBudget :: "int \<Rightarrow> int \<Rightarrow> int \<Rightarrow> int \<Rightarrow> int \<Rightarrow> int" where
  "pilotsBudget totalSlots tagTQJobs tagWaitingPilots maxPilots queueSubmittedPilots =
     min (maxPilots - queueSubmittedPilots) (max 0 (min totalSlots (tagTQJobs - tagWaitingPilots)))"

text \<open>
  What happens for a tag before its submission loop: the tag is left (\<open>TagSkip\<close>),
  \<open>submitJobs\<close> is left (\<open>TagStop\<close>), or the loop starts with a budget (\<open>TagRun\<close>).
\<close>

datatype tagStart = TagSkip state | TagStop outcome state | TagRun int state

definition tagPrelude :: "env \<Rightarrow> director \<Rightarrow> string \<Rightarrow> int \<Rightarrow> nat list \<Rightarrow> int \<Rightarrow> int \<Rightarrow> state \<Rightarrow> tagStart" where
  "tagPrelude e self queue queueCPUTime tagTqIDList tagTQJobs queueSubmittedPilots st =
     (case waitingPilots e self tagTqIDList st of (tagWaitingPilots, st1) \<Rightarrow>
        if tagWaitingPilots \<ge> tagTQJobs then TagSkip st1
        else
          (let cpuTime = queueCPUTime + 86400;
               st2 = emit (PilotProxy cpuTime) st1
           in case getPilotProxyFromDIRACGroup e (trace st1) cpuTime of
                S_ERROR m \<Rightarrow> TagStop (Returned (S_ERROR m)) st2
              | S_OK proxy \<Rightarrow>
                  (let st3 = emit (SetProxy proxy (cpuTime - 60)) st2
                   in case getQueueSlots e (trace st3) queue (queueSlots st3 queue) of
                        (totalSlots, slots) \<Rightarrow>
                          (let st4 = emit (QueueSlots queue) (st3\<lparr>queueSlots := (queueSlots st3)(queue := slots)\<rparr>)
                           in if totalSlots = 0 then TagSkip st4
                              else TagRun (pilotsBudget totalSlots tagTQJobs tagWaitingPilots
                                             (maxPilotsToSubmit self) queueSubmittedPilots) st4))))"

text \<open>
  A tag with its task queues and the number of their jobs. \<open>processTag\<close> is the body of
  \<open>for tag in tqIDListByProcessors\<close> on \<open>queueSubmittedPilots\<close> and the state.
\<close>

type_synonym bucket = "string \<times> nat list \<times> int"

definition processTag :: "nat \<Rightarrow> env \<Rightarrow> director \<Rightarrow> string \<Rightarrow> queue \<Rightarrow> int \<Rightarrow> taskQueueDict \<Rightarrow>
    bucket \<Rightarrow> int \<times> state \<Rightarrow> (int \<times> state) flow option" where
  "processTag fuel e self queue q queueCPUTime d b c =
     (case b of (tag, tagTqIDList, tagTQJobs) \<Rightarrow>
      case c of (queueSubmittedPilots, st) \<Rightarrow>
        (case tagPrelude e self queue queueCPUTime tagTqIDList tagTQJobs queueSubmittedPilots st of
           TagSkip st' \<Rightarrow> Some (Next (queueSubmittedPilots, st'))
         | TagStop out st' \<Rightarrow> Some (Stop out st')
         | TagRun pilotsToSubmit st' \<Rightarrow>
             (case submitLoop fuel e queue q d tagTqIDList (processorsOf tag)
                     (pilotsToSubmit, queueSubmittedPilots, st') of
                None \<Rightarrow> None
              | Some (Next (p, qs, st'')) \<Rightarrow> Some (Next (qs, st''))
              | Some (Stop out st'') \<Rightarrow> Some (Stop out st''))))"

fun tagLoop :: "nat \<Rightarrow> env \<Rightarrow> director \<Rightarrow> string \<Rightarrow> queue \<Rightarrow> int \<Rightarrow> taskQueueDict \<Rightarrow>
    bucket list \<Rightarrow> int \<times> state \<Rightarrow> (int \<times> state) flow option" where
  "tagLoop fuel e self queue q queueCPUTime d [] c = Some (Next c)"
| "tagLoop fuel e self queue q queueCPUTime d (b # bs) c =
     (case processTag fuel e self queue q queueCPUTime d b c of
        None \<Rightarrow> None
      | Some (Next c') \<Rightarrow> tagLoop fuel e self queue q queueCPUTime d bs c'
      | Some (Stop out st) \<Rightarrow> Some (Stop out st))"

subsection \<open>Lines 147 to 238: a queue before its tags\<close>

text \<open>
  Lines 148 to 152, the gate on the failure counter. Python's \<open>%\<close> on integers takes the
  sign of the divisor, as \<open>mod\<close> does, and raises ZeroDivisionError for the divisor 0.
  The result says whether the queue is skipped.
\<close>

definition backoff :: "director \<Rightarrow> string \<Rightarrow> state \<Rightarrow> exn + (bool \<times> state)" where
  "backoff self queue st =
     (if failedQueueCycleFactor self = 0 then Inl ZeroDivisionError
      else (let failedCount = failedQueues st queue mod failedQueueCycleFactor self
            in if failedCount \<noteq> 0 then Inr (True, failQueue queue st) else Inr (False, st)))"

text \<open>
  The counter of a queue after \<open>n\<close> cycles in a row that all skip it at the gate, and
  \<open>None\<close> when one of these cycles does not skip it. Only the gate and a failed
  submission to the queue itself change its counter.
\<close>

fun skippedCycles :: "director \<Rightarrow> string \<Rightarrow> nat \<Rightarrow> state \<Rightarrow> state option" where
  "skippedCycles self queue 0 st = Some st"
| "skippedCycles self queue (Suc n) st =
     (case backoff self queue st of
        Inr (True, st') \<Rightarrow> skippedCycles self queue n st'
      | _ \<Rightarrow> None)"

text \<open>The state after \<open>n\<close> skips at the gate: the counter of the queue has grown by \<open>n\<close>.\<close>

definition bumped :: "string \<Rightarrow> nat \<Rightarrow> state \<Rightarrow> state" where
  "bumped queue n st = st\<lparr>failedQueues := (failedQueues st)(queue := failedQueues st queue + int n)\<rparr>"

text \<open>Lines 162 to 168.\<close>

definition processorTagsOf :: "string list \<Rightarrow> string list" where
  "processorTagsOf queueTags =
     filter (\<lambda>tag. matchProcessors tag \<noteq> None) queueTags @
     (if ''WholeNode'' \<in> set queueTags then [''WholeNode''] else [])"

text \<open>
  Lines 219 to 235. The two dictionaries \<open>tqIDListByProcessors\<close> and
  \<open>totalTQJobsByProcessors\<close> always have the same keys and are one association list
  here, in the order in which the tags are first met.
\<close>

definition addToBucket :: "nat \<Rightarrow> int \<Rightarrow> bucket list \<Rightarrow> string \<Rightarrow> bucket list" where
  "addToBucket tq jobs bs tag =
     (case map_of bs tag of
        None \<Rightarrow> bs @ [(tag, [tq], jobs)]
      | Some (ids, n) \<Rightarrow> AList.update tag (ids @ [tq], n + jobs) bs)"

definition bucketStep :: "string list \<Rightarrow> bucket list \<Rightarrow> nat \<times> taskQueue \<Rightarrow> bucket list" where
  "bucketStep processorTags bs e =
     (case tqTags (snd e) of
        None \<Rightarrow> bs
      | Some tags \<Rightarrow>
          foldl (\<lambda>bs tag. if tag \<in> set processorTags then addToBucket (fst e) (tqJobs (snd e)) bs tag else bs)
            bs tags)"

definition buildBuckets :: "string list \<Rightarrow> taskQueueDict \<Rightarrow> bucket list" where
  "buildBuckets processorTags d = foldl (bucketStep processorTags) [] d"

definition queueCriteria :: "director \<Rightarrow> queue \<Rightarrow> bool \<Rightarrow> string list \<Rightarrow> string list \<Rightarrow> criteria" where
  "queueCriteria self q siteMask compatible processorTags =
     \<lparr>GridCE = Some (CEName q),
      JobType = (if \<not> siteMask then Some ''Test'' else None),
      Community = (if vo self \<noteq> [] then Some (vo self) else None),
      OwnerGroup = (if voGroups self \<noteq> [] then Some (voGroups self) else None),
      PlatformList = compatible,
      SiteList = None,
      Tag = processorTags\<rparr>"

datatype queueStart = QueueSkip state | QueueStop outcome state
  | QueueRun queue int taskQueueDict "bucket list" state

definition queuePrelude :: "env \<Rightarrow> director \<Rightarrow> demand \<Rightarrow> string list \<Rightarrow> string \<Rightarrow> state \<Rightarrow> queueStart" where
  "queuePrelude e self dm siteMaskList queue st0 =
     (case backoff self queue st0 of
        Inl x \<Rightarrow> QueueStop (Raised x) st0
      | Inr (True, st) \<Rightarrow> QueueSkip st
      | Inr (False, st) \<Rightarrow>
          (case map_of (queueDict self) queue of
             None \<Rightarrow> QueueStop (Raised KeyError) st
           | Some q \<Rightarrow>
               (case Tags (ParametersDict q) of
                  None \<Rightarrow> QueueStop (Raised KeyError) st
                | Some queueTags \<Rightarrow>
                    (let siteName = Site q;
                         siteMask = (siteName \<in> set siteMaskList);
                         processorTags = processorTagsOf queueTags
                     in if \<not> anySite dm \<and> siteName \<notin> jobSites dm then QueueSkip st
                        else if \<not> siteMask \<and> siteName \<notin> testSites dm then QueueSkip st
                        else
                          (case CPUTime (ParametersDict q) of
                             None \<Rightarrow> QueueSkip st
                           | Some v \<Rightarrow>
                               (case py_int v of
                                  Inl x \<Rightarrow> QueueStop (Raised x) st
                                | Inr t \<Rightarrow>
                                    (let queueCPUTime = (if t > maxQueueLength self then maxQueueLength self else t);
                                         st1 = emit (CompatiblePlatforms [Platform q]) st
                                     in case getCompatiblePlatforms e (trace st) [Platform q] of
                                          S_ERROR m \<Rightarrow> QueueSkip st1
                                        | S_OK compatible \<Rightarrow>
                                            (let ceDict = queueCriteria self q siteMask compatible processorTags;
                                                 st2 = emit (MatchingTaskQueues ceDict) st1
                                             in case getMatchingTaskQueues e (trace st1) ceDict of
                                                  S_ERROR m \<Rightarrow> QueueStop (Returned (S_ERROR m)) st2
                                                | S_OK taskQueueDict \<Rightarrow>
                                                    if taskQueueDict = [] then QueueSkip st2
                                                    else QueueRun q queueCPUTime taskQueueDict
                                                           (buildBuckets processorTags taskQueueDict)
                                                           (st2\<lparr>matchedQueues := matchedQueues st2 + 1\<rparr>)))))))))"

subsection \<open>Lines 145 to 371: the loop over the queues\<close>

definition processQueue :: "nat \<Rightarrow> env \<Rightarrow> director \<Rightarrow> demand \<Rightarrow> string list \<Rightarrow> string \<Rightarrow> state \<Rightarrow>
    state flow option" where
  "processQueue fuel e self dm siteMaskList queue st =
     (case queuePrelude e self dm siteMaskList queue st of
        QueueSkip st' \<Rightarrow> Some (Next st')
      | QueueStop out st' \<Rightarrow> Some (Stop out st')
      | QueueRun q queueCPUTime taskQueueDict buckets st' \<Rightarrow>
          (case tagLoop fuel e self queue q queueCPUTime taskQueueDict buckets (0, st') of
             None \<Rightarrow> None
           | Some (Next (qs, st'')) \<Rightarrow> Some (Next st'')
           | Some (Stop out st'') \<Rightarrow> Some (Stop out st'')))"

fun queueLoop :: "nat \<Rightarrow> env \<Rightarrow> director \<Rightarrow> demand \<Rightarrow> string list \<Rightarrow> string list \<Rightarrow> state \<Rightarrow>
    state flow option" where
  "queueLoop fuel e self dm siteMaskList [] st = Some (Next st)"
| "queueLoop fuel e self dm siteMaskList (queue # queues) st =
     (case processQueue fuel e self dm siteMaskList queue st of
        None \<Rightarrow> None
      | Some (Next st') \<Rightarrow> queueLoop fuel e self dm siteMaskList queues st'
      | Some (Stop out st') \<Rightarrow> Some (Stop out st'))"

subsection \<open>Lines 60 to 144 and 373: the cycle\<close>

text \<open>Lines 77 to 79: the tags of all queues; a queue without \<open>Tags\<close> raises KeyError.\<close>

fun collectTags :: "queueDict \<Rightarrow> string list option" where
  "collectTags [] = Some []"
| "collectTags ((queue, q) # rest) =
     (case Tags (ParametersDict q) of
        None \<Rightarrow> None
      | Some ts \<Rightarrow> (case collectTags rest of None \<Rightarrow> None | Some tags \<Rightarrow> Some (ts @ tags)))"

definition globalCriteria :: "director \<Rightarrow> string list \<Rightarrow> string list \<Rightarrow> criteria" where
  "globalCriteria self compatible tags =
     \<lparr>GridCE = None,
      JobType = None,
      Community = (if vo self \<noteq> [] then Some (vo self) else None),
      OwnerGroup = (if voGroups self \<noteq> [] then Some (voGroups self) else None),
      PlatformList = compatible,
      SiteList = sites self,
      Tag = remdups tags\<rparr>"

text \<open>Lines 127 to 140: the site mask, from the resource status or from the JobDB.\<close>

definition siteMaskOf :: "env \<Rightarrow> director \<Rightarrow> state \<Rightarrow> string list result \<times> state" where
  "siteMaskOf e self st =
     (if rssFlag self
      then (case getUsableSites e (trace st) of
              S_ERROR m \<Rightarrow> (S_ERROR ''Can not get the site status'', emit UsableSites st)
            | S_OK v \<Rightarrow> (S_OK v, emit UsableSites st))
      else (case getSiteMask e (trace st) of
              S_ERROR m \<Rightarrow> (S_ERROR ''Can not get the site mask'', emit SiteMask st)
            | S_OK v \<Rightarrow> (S_OK v, emit SiteMask st)))"

text \<open>
  \<open>submitJobs\<close>: what it returns or raises, and the state it leaves. \<open>fuel\<close> bounds the
  passes of each submission loop; the result is \<open>None\<close> when a loop needs more.
\<close>

definition submitJobs :: "nat \<Rightarrow> env \<Rightarrow> director \<Rightarrow> state \<Rightarrow> (outcome \<times> state) option" where
  "submitJobs fuel e self st =
     (let queues = map fst (queueDict self);
          st1 = emit (CompatiblePlatforms (platforms self)) st
      in case getCompatiblePlatforms e (trace st) (platforms self) of
           S_ERROR m \<Rightarrow> Some (Returned (S_ERROR m), st1)
         | S_OK compatible \<Rightarrow>
             (case collectTags (queueDict self) of
                None \<Rightarrow> Some (Raised KeyError, st1)
              | Some tags \<Rightarrow>
                  (let tqDict = globalCriteria self compatible tags;
                       st2 = emit (MatchingTaskQueues tqDict) st1
                   in case getMatchingTaskQueues e (trace st1) tqDict of
                        S_ERROR m \<Rightarrow> Some (Returned (S_ERROR m), st2)
                      | S_OK tqs \<Rightarrow>
                          if tqs = [] then Some (Returned (S_OK ()), st2)
                          else
                            (let dm = demandOf tqs;
                                 st3 = emit (CountPilots (map fst tqs)) (st2\<lparr>tqID := Some (fst (last tqs))\<rparr>)
                             in case siteMaskOf e self st3 of
                                  (S_ERROR m, st4) \<Rightarrow> Some (Returned (S_ERROR m), st4)
                                | (S_OK siteMaskList, st4) \<Rightarrow>
                                    (case queueLoop fuel e self dm siteMaskList
                                            (random_shuffle e (trace st4) queues) (emit Shuffle st4) of
                                       None \<Rightarrow> None
                                     | Some (Next st') \<Rightarrow> Some (Returned (S_OK ()), st')
                                     | Some (Stop out st') \<Rightarrow> Some (out, st'))))))"

subsection \<open>The calls of one pass of the submission loop\<close>

text \<open>
  The calls of a pass up to the answer of the endpoint: the pilot script is built,
  submitted and, except for an HTCondorCE, removed (lines 308 to 318).
\<close>

definition submitCalls :: "string \<Rightarrow> queue \<Rightarrow> string \<Rightarrow> int \<Rightarrow> int \<Rightarrow> int \<Rightarrow> event list" where
  "submitCalls queue q x chunk processors pilotsToSubmit =
     [Executable queue pilotsToSubmit, SubmitJob queue x chunk processors] @
     (if CEType q \<noteq> ''HTCondorCE'' then [Unlink x] else [])"

subsection \<open>What the claims assume of the base class and of the endpoint\<close>

text \<open>
  \<open>getExecutable\<close> and \<open>submitJob\<close> are not code of the agent. A chunk is \<open>within the
  request\<close> when \<open>getExecutable\<close>, asked for a positive number of pilots, never returns
  a larger chunk; the endpoint is \<open>within the chunk\<close> when, moreover, no chunk is
  negative and \<open>submitJob\<close> never returns more pilot references than the chunk it was
  given.
\<close>

definition chunkWithinRequest :: "env \<Rightarrow> bool" where
  "chunkWithinRequest e \<longleftrightarrow>
     (\<forall>tr queue n x chunk. 0 < n \<longrightarrow> getExecutable e tr queue n = S_OK (x, chunk) \<longrightarrow> chunk \<le> n)"

definition pilotsWithinChunk :: "env \<Rightarrow> bool" where
  "pilotsWithinChunk e \<longleftrightarrow>
     (\<forall>tr queue n x chunk. 0 < n \<longrightarrow> getExecutable e tr queue n = S_OK (x, chunk) \<longrightarrow> 0 \<le> chunk) \<and>
     (\<forall>tr queue x chunk processors pl.
        0 \<le> chunk \<longrightarrow> submitJob e tr queue x chunk processors = S_OK pl \<longrightarrow> int (length pl) \<le> chunk)"

section \<open>A small site for the examples\<close>

text \<open>
  One task queue with three jobs for the tag \<open>2Processors\<close>, and a site with two queues
  of four processors each. Every service answers; the endpoint accepts every chunk
  whole, and the Matcher gives the same task queue to every request.
\<close>

definition tq7 :: taskQueue where
  "tq7 = \<lparr>tqSites = None, tqJobTypes = False, tqJobs = 3, tqTags = Some [''2Processors''],
          tqPriority = Finite 1\<rparr>"

text \<open>
  The floats of the examples are 0, 1/2 and 1. On them the arithmetic of the doubles is
  exact, so the examples compute with the numbers themselves; an operand that is not
  finite does not occur.
\<close>

definition exact_add :: "pyfloat \<Rightarrow> pyfloat \<Rightarrow> pyfloat" where
  "exact_add a b = (case (a, b) of (Finite x, Finite y) \<Rightarrow> Finite (x + y) | _ \<Rightarrow> NaN)"

definition exact_mul :: "pyfloat \<Rightarrow> pyfloat \<Rightarrow> pyfloat" where
  "exact_mul a b = (case (a, b) of (Finite x, Finite y) \<Rightarrow> Finite (x * y) | _ \<Rightarrow> NaN)"

definition exact_less :: "pyfloat \<Rightarrow> pyfloat \<Rightarrow> bool" where
  "exact_less a b = (case (a, b) of (Finite x, Finite y) \<Rightarrow> x < y | _ \<Rightarrow> False)"

definition pilotNames :: "int \<Rightarrow> string list" where
  "pilotNames n = map (\<lambda>i. ''pilot'' @ show_nat i) [0 ..< nat n]"

definition baseEnv :: env where
  "baseEnv =
     \<lparr>getCompatiblePlatforms = (\<lambda>tr ps. S_OK ps),
      getMatchingTaskQueues = (\<lambda>tr c. S_OK [(7, tq7)]),
      countPilots = (\<lambda>tr ids. S_OK 0),
      getUsableSites = (\<lambda>tr. S_OK [''LCG.Site.org'']),
      getSiteMask = (\<lambda>tr. S_OK [''LCG.Site.org'']),
      random_shuffle = (\<lambda>tr qs. qs),
      getPilotProxyFromDIRACGroup = (\<lambda>tr t. S_OK ''proxy''),
      getQueueSlots = (\<lambda>tr queue n. (10, 10)),
      getExecutable = (\<lambda>tr queue n. S_OK (''pilot.sh'', min n 2)),
      submitJob = (\<lambda>tr queue x n p. S_OK (pilotNames n)),
      random_random = (\<lambda>tr. Finite (1 / 2)),
      float_add = exact_add,
      float_mul = exact_mul,
      float_less = exact_less,
      addPilotTQReference = (\<lambda>tr ps t. S_OK ())\<rparr>"

definition params4 :: parameters where
  "params4 = \<lparr>MaxProcessors = Some (PyStr ''4''), WholeNode = None,
              Tags = Some (map processorsTag [1 .. 4]), CPUTime = Some (PyStr ''3600'')\<rparr>"

definition queueA :: queue where
  "queueA = \<lparr>CEName = ''ce.site.org'', CEType = ''CREAM'', QueueName = ''long'',
             Site = ''LCG.Site.org'', Platform = ''x86_64'', ParametersDict = params4\<rparr>"

definition site2 :: director where
  "site2 =
     \<lparr>vo = ''lhcb'', voGroups = [], platforms = [''x86_64''], sites = None, rssFlag = False,
      failedQueueCycleFactor = 10, maxQueueLength = 259200, pilotWaitingFlag = True,
      maxPilotsToSubmit = 100,
      queueDict = [(''qA'', queueA), (''qB'', queueA\<lparr>QueueName := ''short''\<rparr>)]\<rparr>"

definition state0 :: state where
  "state0 = \<lparr>failedQueues = (\<lambda>queue. 0), queueSlots = (\<lambda>queue. 0), trace = [],
             tqID = None, totalSubmittedPilots = 0, matchedQueues = 0\<rparr>"

text \<open>
  A computing element that reports nothing, a queue limited to one processor, and a
  parameter dictionary that already carries a tag before the tags are derived.
\<close>

definition plainCE :: ceDef where
  "plainCE = \<lparr>ceMaxProcessors = None, ceWholeNode = None\<rparr>"

definition params1 :: parameters where
  "params1 = \<lparr>MaxProcessors = Some (PyStr ''1''), WholeNode = None, Tags = None,
              CPUTime = Some (PyStr ''3600'')\<rparr>"

definition paramsTagged :: parameters where
  "paramsTagged = \<lparr>MaxProcessors = Some (PyStr ''2''), WholeNode = None,
                   Tags = Some [''8Processors''], CPUTime = None\<rparr>"

definition resources1 :: resourceDict where
  "resources1 = [''LCG.Site.org'' \<mapsto> [''ce.site.org'' \<mapsto> plainCE]]"

text \<open>The same site when the Matcher has no task queue, and with a queue without \<open>CPUTime\<close>.\<close>

definition idleEnv :: env where
  "idleEnv = baseEnv\<lparr>getMatchingTaskQueues := (\<lambda>tr c. S_OK [])\<rparr>"

definition siteNoCPU :: director where
  "siteNoCPU = site2\<lparr>queueDict := [(''qA'', queueA\<lparr>ParametersDict := params4\<lparr>CPUTime := None\<rparr>\<rparr>)]\<rparr>"

text \<open>
  The endpoint refuses every submission; no pilot proxy can be had; the Matcher answers
  the first request of the cycle and fails on the request for a queue.
\<close>

definition downEnv :: env where
  "downEnv = baseEnv\<lparr>submitJob := (\<lambda>tr queue x n p. S_ERROR ''endpoint down'')\<rparr>"

definition noProxyEnv :: env where
  "noProxyEnv = baseEnv\<lparr>getPilotProxyFromDIRACGroup := (\<lambda>tr t. S_ERROR ''no proxy'')\<rparr>"

definition matcherFailsEnv :: env where
  "matcherFailsEnv =
     baseEnv\<lparr>getMatchingTaskQueues :=
       (\<lambda>tr c. if GridCE c = None then S_OK [(7, tq7)] else S_ERROR ''matcher down'')\<rparr>"

text \<open>
  The tags of the two queues, the requirements sent for a queue of the site, and the
  states of the first queue after the answer of the Matcher and at the start of the
  submission loop of its tag.
\<close>

definition tags4 :: "string list" where
  "tags4 = [''1Processors'', ''2Processors'', ''3Processors'', ''4Processors'']"

definition criteriaA :: criteria where
  "criteriaA = queueCriteria site2 queueA True [''x86_64''] tags4"

definition probedState :: state where
  "probedState =
     state0\<lparr>trace := [CompatiblePlatforms [''x86_64''], MatchingTaskQueues criteriaA],
            matchedQueues := 1\<rparr>"

definition countedState :: state where
  "countedState = probedState\<lparr>trace := trace probedState @ [CountPilots [7]]\<rparr>"

definition tagReadyState :: state where
  "tagReadyState =
     probedState\<lparr>trace := trace probedState @
                     [CountPilots [7], PilotProxy 90000, SetProxy ''proxy'' 89940, QueueSlots ''qA''],
                  queueSlots := (queueSlots probedState)(''qA'' := 10)\<rparr>"

text \<open>The state after the endpoint has refused the first submission to the first queue.\<close>

definition refusedState :: state where
  "refusedState =
     failQueue ''qA''
       (tagReadyState\<lparr>trace := trace tagReadyState @
          submitCalls ''qA'' queueA ''pilot.sh'' 2 (processorsOf ''2Processors'') 3\<rparr>)"

text \<open>
  The state in which \<open>submitJobs\<close> returns when the Matcher fails on the request for
  the first queue.
\<close>

definition abortedState :: state where
  "abortedState =
     state0\<lparr>trace := [CompatiblePlatforms [''x86_64''],
                       MatchingTaskQueues (globalCriteria site2 [''x86_64''] (tags4 @ tags4)),
                       CountPilots [7], SiteMask, Shuffle,
                       CompatiblePlatforms [''x86_64''], MatchingTaskQueues criteriaA],
            tqID := Some 7\<rparr>"


lemma below_ten:
  "(d::nat) < 10 \<Longrightarrow> d = 0 \<or> d = 1 \<or> d = 2 \<or> d = 3 \<or> d = 4 \<or> d = 5 \<or> d = 6 \<or> d = 7 \<or> d = 8 \<or> d = 9"
  by arith

lemma digit_val_digit_char: "d < 10 \<Longrightarrow> digit_val (digit_char d) = d"
  by (drule below_ten, elim disjE) (simp_all add: digit_val_def digit_char_def digits_def upt_rec)

lemma isdigit_digit_char: "d < 10 \<Longrightarrow> isdigit (digit_char d)"
  by (drule below_ten, elim disjE) (simp_all add: isdigit_def digit_char_def digits_def)

lemma digits_val_snoc: "digits_val (ds @ [c]) = 10 * digits_val ds + digit_val c"
  by (simp add: digits_val_def)

lemma digits_val_show_nat: "digits_val (show_nat n) = n"
proof (induction n rule: show_nat.induct)
  case (1 n)
  show ?case
  proof (cases "n < 10")
    case True
    then show ?thesis
      using digit_val_digit_char [of n] by (simp add: show_nat.simps [of n] digits_val_def)
  next
    case False
    then have "digits_val (show_nat n) = 10 * (n div 10) + n mod 10"
      using 1 digit_val_digit_char [of "n mod 10"]
      by (simp add: show_nat.simps [of n] digits_val_snoc)
    then show ?thesis by simp
  qed
qed

lemma show_nat_digits: "list_all isdigit (show_nat n)"
proof (induction n rule: show_nat.induct)
  case (1 n)
  show ?case
  proof (cases "n < 10")
    case True
    then show ?thesis
      by (simp add: show_nat.simps [of n] isdigit_digit_char)
  next
    case False
    then show ?thesis
      using 1 by (simp add: show_nat.simps [of n] isdigit_digit_char)
  qed
qed

lemma show_nat_not_Nil: "show_nat n \<noteq> []"
  by (simp add: show_nat.simps [of n])

lemma show_nat_inj: "show_nat n = show_nat m \<Longrightarrow> n = m"
  by (metis digits_val_show_nat)

lemma show_nat_no_minus: "show_nat n \<noteq> CHR ''-'' # cs"
proof
  assume "show_nat n = CHR ''-'' # cs"
  then have "isdigit (CHR ''-'')"
    using show_nat_digits [of n] by simp
  then show False by (simp add: isdigit_def digits_def)
qed

lemma show_int_inj: "show_int i = show_int j \<Longrightarrow> i = j"
proof -
  assume eq: "show_int i = show_int j"
  consider "i < 0" "j < 0" | "i < 0" "\<not> j < 0" | "\<not> i < 0" "j < 0" | "\<not> i < 0" "\<not> j < 0"
    by blast
  then show ?thesis
  proof cases
    case 1
    with eq have "nat (- i) = nat (- j)" by (simp add: show_int_def show_nat_inj)
    with 1 show ?thesis by simp
  next
    case 2
    with eq have "show_nat (nat j) = CHR ''-'' # show_nat (nat (- i))" by (simp add: show_int_def)
    then show ?thesis using show_nat_no_minus by blast
  next
    case 3
    with eq show ?thesis using show_nat_no_minus [of "nat i"] by (simp add: show_int_def)
  next
    case 4
    with eq have "nat i = nat j" by (simp add: show_int_def show_nat_inj)
    with 4 show ?thesis by simp
  qed
qed

lemma processorsTag_inj: "processorsTag i = processorsTag j \<Longrightarrow> i = j"
  by (simp add: processorsTag_def show_int_inj)

lemma processorsTag_not_WholeNode: "processorsTag i \<noteq> ''WholeNode''"
proof
  assume "processorsTag i = ''WholeNode''"
  then have "last (processorsTag i) = last ''WholeNode''" by simp
  then show False by (simp add: processorsTag_def)
qed

lemma processorsTag_mem: "processorsTag N \<in> set (map processorsTag [1 .. m]) \<longleftrightarrow> 1 \<le> N \<and> N \<le> m"
  by (auto dest: processorsTag_inj)

lemma addProcessorsTags_tags:
  "addProcessorsTags cd p = Inr p' \<Longrightarrow>
   tagsOf p' = tagsOf p @ map processorsTag [1 .. maxProcessorsCount cd p] \<and>
   WholeNode p' = WholeNode p"
  by (auto simp: addProcessorsTags_def maxProcessorsCount_def tagsOf_def Let_def
           split: if_splits sum.splits)

lemma addWholeNodeTag_tags:
  "addWholeNodeTag cd p = Inr p' \<Longrightarrow>
   tagsOf p' = tagsOf p @ (if wholeNodeTruthy (wholeNodeFlag cd p) then [''WholeNode''] else [])"
  by (auto simp: addWholeNodeTag_def wholeNodeTruthy_def tagsOf_def
           split: if_splits pyval.splits)

lemma wholeNodeFlag_cong: "WholeNode p' = WholeNode p \<Longrightarrow> wholeNodeFlag cd p' = wholeNodeFlag cd p"
  by (simp add: wholeNodeFlag_def)

lemma deriveTags_tags:
  assumes "deriveTags cd p = Inr p'"
  shows "tagsOf p' = tagsOf p @ map processorsTag [1 .. maxProcessorsCount cd p] @
           (if wholeNodeTruthy (wholeNodeFlag cd p) then [''WholeNode''] else [])"
proof -
  from assms obtain p1 where a: "addProcessorsTags cd p = Inr p1" and b: "addWholeNodeTag cd p1 = Inr p'"
    by (auto simp: deriveTags_def split: sum.splits)
  from addProcessorsTags_tags [OF a] addWholeNodeTag_tags [OF b] wholeNodeFlag_cong [of p1 p cd]
  show ?thesis by simp
qed

lemma deriveTags_fresh:
  assumes "deriveTags cd p = Inr p'" and "Tags p = None"
  shows "(\<forall>N. processorsTag N \<in> set (tagsOf p') \<longleftrightarrow> 1 \<le> N \<and> N \<le> maxProcessorsCount cd p) \<and>
         (''WholeNode'' \<in> set (tagsOf p') \<longleftrightarrow> wholeNodeTruthy (wholeNodeFlag cd p))"
proof -
  have t: "tagsOf p = []" using assms(2) by (simp add: tagsOf_def)
  have w: "''WholeNode'' \<notin> set (map processorsTag [1 .. maxProcessorsCount cd p])"
  proof
    assume "''WholeNode'' \<in> set (map processorsTag [1 .. maxProcessorsCount cd p])"
    then obtain x where "processorsTag x = ''WholeNode''" by auto
    then show False using processorsTag_not_WholeNode by blast
  qed
  show ?thesis
    unfolding deriveTags_tags [OF assms(1)] t
    using w processorsTag_mem [of _ "maxProcessorsCount cd p"] processorsTag_not_WholeNode
    by auto
qed

lemma retained_fresh:
  assumes "deriveTags cd p = Inr p'" and "Tags p = None"
  shows "retained p' \<longleftrightarrow> 2 \<le> maxProcessorsCount cd p \<or> wholeNodeTruthy (wholeNodeFlag cd p)"
proof -
  have two: "processorsTag 2 = ''2Processors''"
    by (simp add: processorsTag_def show_int_def show_nat.simps digit_char_def digits_def)
  have t: "tagsOf p = []" using assms(2) by (simp add: tagsOf_def)
  have m: "''2Processors'' \<in> set (tagsOf p') \<longleftrightarrow> 2 \<le> maxProcessorsCount cd p"
    using processorsTag_mem [of 2 "maxProcessorsCount cd p"] processorsTag_not_WholeNode [of 2]
    unfolding deriveTags_tags [OF assms(1)] t two by auto
  have w: "''WholeNode'' \<in> set (tagsOf p') \<longleftrightarrow> wholeNodeTruthy (wholeNodeFlag cd p)"
    using deriveTags_fresh [OF assms] by blast
  show ?thesis
  proof (cases "Tags p'")
    case None
    then have "tagsOf p' = []" by (simp add: tagsOf_def)
    with m w None show ?thesis by (simp add: retained_def)
  next
    case (Some ts)
    then have "tagsOf p' = ts" by (simp add: tagsOf_def)
    with m w Some show ?thesis by (auto simp: retained_def)
  qed
qed

lemma digit_val_chars:
  "digit_val CHR ''0'' = 0" "digit_val CHR ''1'' = 1" "digit_val CHR ''2'' = 2"
  "digit_val CHR ''3'' = 3" "digit_val CHR ''4'' = 4" "digit_val CHR ''5'' = 5"
  "digit_val CHR ''6'' = 6" "digit_val CHR ''7'' = 7" "digit_val CHR ''8'' = 8"
  "digit_val CHR ''9'' = 9"
  by (simp_all add: digit_val_def digits_def upt_rec)

lemmas py_eval = py_int_def strip_def isspace_def unsigned_int_def isdigit_def digits_def
  digits_val_def digit_val_chars

lemma processorsTag_small:
  "processorsTag 1 = ''1Processors''" "processorsTag 2 = ''2Processors''"
  "processorsTag 3 = ''3Processors''" "processorsTag 4 = ''4Processors''"
  "processorsTag 8 = ''8Processors''"
  by (simp_all add: processorsTag_def show_int_def show_nat.simps digit_char_def digits_def)

lemma upto_small: "[1 .. 1] = [1::int]" "[1 .. 2] = [1, 2::int]" "[1 .. 4] = [1, 2, 3, 4::int]"
  by (simp_all add: upto.simps)

lemma py_int_small:
  "py_int (PyStr ''1'') = Inr 1" "py_int (PyStr ''2'') = Inr 2" "py_int (PyStr ''4'') = Inr 4"
  "py_int (PyStr ''3600'') = Inr 3600"
  by (simp_all add: py_eval)

lemma deriveTags_paramsTagged:
  "deriveTags plainCE paramsTagged =
     Inr (paramsTagged\<lparr>Tags := Some [''8Processors'', ''1Processors'', ''2Processors'']\<rparr>)"
  by (simp add: deriveTags_def addProcessorsTags_def addWholeNodeTag_def wholeNodeFlag_def
      maxProcessorsValue_def tagsOf_def plainCE_def paramsTagged_def py_int_small upto_small
      processorsTag_small lower_def lower_char_def)

lemma deriveTags_params1:
  "deriveTags plainCE params1 = Inr (params1\<lparr>Tags := Some [''1Processors'']\<rparr>)"
  by (simp add: deriveTags_def addProcessorsTags_def addWholeNodeTag_def wholeNodeFlag_def
      maxProcessorsValue_def tagsOf_def plainCE_def params1_def py_int_small upto_small
      processorsTag_small lower_def lower_char_def)

text \<open>
  C3, as stated, fails: a queue whose \<open>ParametersDict\<close> already has the tag
  \<open>8Processors\<close> and whose \<open>MaxProcessors\<close> is 2 keeps \<open>8Processors\<close> in its tags.
\<close>

theorem deriveTags_keeps_tags_counterexample:
  "deriveTags plainCE paramsTagged =
     Inr (paramsTagged\<lparr>Tags := Some [''8Processors'', ''1Processors'', ''2Processors'']\<rparr>) \<and>
   maxProcessorsCount plainCE paramsTagged = 2 \<and>
   processorsTag 8 \<in> set (tagsOf (paramsTagged\<lparr>Tags := Some [''8Processors'', ''1Processors'', ''2Processors'']\<rparr>)) \<and>
   \<not> (1 \<le> (8::int) \<and> 8 \<le> maxProcessorsCount plainCE paramsTagged)"
proof -
  have "maxProcessorsCount plainCE paramsTagged = 2"
    by (simp add: maxProcessorsCount_def maxProcessorsValue_def paramsTagged_def py_int_small)
  then show ?thesis
    by (simp add: deriveTags_paramsTagged tagsOf_def processorsTag_small)
qed

text \<open>
  C3, amended: for a queue whose \<open>ParametersDict\<close> has no \<open>Tags\<close> entry before the
  derivation, and when the derivation raises no exception, the tags of the queue
  contain \<open>{N}Processors\<close> exactly for the integers N from 1 to the effective
  \<open>MaxProcessors\<close> value (the entry of the queue when it has one, else the value of the
  computing element), and contain \<open>WholeNode\<close> exactly when the effective whole-node
  flag is \<open>yes\<close> or \<open>true\<close> in any case of the letters.
\<close>

theorem deriveTags_exact:
  assumes "deriveTags cd p = Inr p'" and "Tags p = None"
  shows "(\<forall>N. processorsTag N \<in> set (tagsOf p') \<longleftrightarrow> 1 \<le> N \<and> N \<le> maxProcessorsCount cd p) \<and>
         (''WholeNode'' \<in> set (tagsOf p') \<longleftrightarrow> wholeNodeTruthy (wholeNodeFlag cd p))"
  using deriveTags_fresh [OF assms] .

theorem deriveTags_exact_witness:
  "deriveTags plainCE params1 = Inr (params1\<lparr>Tags := Some [''1Processors'']\<rparr>) \<and>
   Tags params1 = None \<and>
   (\<forall>N. processorsTag N \<in> set (tagsOf (params1\<lparr>Tags := Some [''1Processors'']\<rparr>)) \<longleftrightarrow>
        1 \<le> N \<and> N \<le> maxProcessorsCount plainCE params1) \<and>
   (''WholeNode'' \<in> set (tagsOf (params1\<lparr>Tags := Some [''1Processors'']\<rparr>)) \<longleftrightarrow>
      wholeNodeTruthy (wholeNodeFlag plainCE params1))"
proof -
  have a: "deriveTags plainCE params1 = Inr (params1\<lparr>Tags := Some [''1Processors'']\<rparr>)"
    by (rule deriveTags_params1)
  have b: "Tags params1 = None" by (simp add: params1_def)
  show ?thesis using a b deriveTags_exact [OF a b] by simp
qed

text \<open>
  C4: the catalog holds one queue, limited to one processor and without whole-node
  support. \<open>getQueues\<close> deletes the queue, and the iteration over the catalog then
  raises RuntimeError instead of ending without error.
\<close>

theorem getQueues_delete_raises:
  "getQueues (S_OK ()) resources1 [(''qA'', queueA\<lparr>ParametersDict := params1\<rparr>)] = (Raised RuntimeError, [])"
proof -
  have "\<not> retained (params1\<lparr>Tags := Some [''1Processors'']\<rparr>)"
    by (simp add: retained_def)
  then have "getQueues_body resources1 ''qA'' [(''qA'', queueA\<lparr>ParametersDict := params1\<rparr>)] = Inr ([], True)"
    by (simp add: getQueues_body_def resources1_def queueA_def deriveTags_params1 AList.delete_eq)
  then show ?thesis
    by (simp add: getQueues_def)
qed

subsection \<open>The gate on the failure counter\<close>

lemma failQueue_counter [simp]:
  "failedQueues (failQueue queue st) queue = failedQueues st queue + 1"
  "queue' \<noteq> queue \<Longrightarrow> failedQueues (failQueue queue st) queue' = failedQueues st queue'"
  "trace (failQueue queue st) = trace st"
  "queueSlots (failQueue queue st) = queueSlots st"
  "totalSubmittedPilots (failQueue queue st) = totalSubmittedPilots st"
  by (simp_all add: failQueue_def)

lemma backoff_skip:
  "failedQueueCycleFactor self \<noteq> 0 \<Longrightarrow>
   failedQueues st queue mod failedQueueCycleFactor self \<noteq> 0 \<Longrightarrow>
   backoff self queue st = Inr (True, failQueue queue st)"
  by (simp add: backoff_def)

lemma backoff_pass:
  "failedQueueCycleFactor self \<noteq> 0 \<Longrightarrow>
   failedQueues st queue mod failedQueueCycleFactor self = 0 \<Longrightarrow>
   backoff self queue st = Inr (False, st)"
  by (simp add: backoff_def)


lemma bumped_failQueue: "bumped queue n (failQueue queue st) = bumped queue (Suc n) st"
  by (simp add: bumped_def failQueue_def add.assoc)

lemma bumped_0: "bumped queue 0 st = st"
  by (simp add: bumped_def)

lemma mod_succ_below:
  fixes c f :: int
  assumes "0 < f" and "c mod f + 1 < f"
  shows "(c + 1) mod f = c mod f + 1"
proof -
  have "0 \<le> c mod f" using assms(1) by simp
  then have "(c mod f + 1) mod f = c mod f + 1"
    using assms(2) by (simp add: mod_pos_pos_trivial)
  moreover have "(c + 1) mod f = (c mod f + 1) mod f"
    by (simp add: mod_add_left_eq)
  ultimately show ?thesis by simp
qed

lemma skippedCycles_run:
  assumes f: "0 < failedQueueCycleFactor self"
  shows "failedQueues st queue mod failedQueueCycleFactor self \<noteq> 0 \<or> n = 0 \<Longrightarrow>
         int n \<le> failedQueueCycleFactor self - failedQueues st queue mod failedQueueCycleFactor self \<Longrightarrow>
         skippedCycles self queue n st = Some (bumped queue n st)"
proof (induction n arbitrary: st)
  case 0
  then show ?case by (simp add: bumped_0)
next
  case (Suc n)
  let ?f = "failedQueueCycleFactor self"
  let ?c = "failedQueues st queue"
  from Suc.prems have nz: "?c mod ?f \<noteq> 0" by simp
  have step: "backoff self queue st = Inr (True, failQueue queue st)"
    using f nz by (simp add: backoff_skip)
  have "skippedCycles self queue n (failQueue queue st) = Some (bumped queue n (failQueue queue st))"
  proof (cases "n = 0")
    case True
    then show ?thesis by (simp add: bumped_0)
  next
    case False
    with Suc.prems(2) have lt: "?c mod ?f + 1 < ?f" by simp
    have m: "(?c + 1) mod ?f = ?c mod ?f + 1" using f lt by (rule mod_succ_below)
    have pos: "0 \<le> ?c mod ?f" using f by simp
    show ?thesis
    proof (rule Suc.IH)
      show "failedQueues (failQueue queue st) queue mod ?f \<noteq> 0 \<or> n = 0"
        using m pos by simp
      show "int n \<le> ?f - failedQueues (failQueue queue st) queue mod ?f"
        using m Suc.prems(2) by simp
    qed
  qed
  then show ?case using step by (simp add: bumped_failQueue)
qed

lemma bumped_counter [simp]: "failedQueues (bumped queue n st) queue = failedQueues st queue + int n"
  by (simp add: bumped_def)

lemma eligible_after:
  fixes c f :: int
  assumes "0 < f"
  shows "(c + (f - c mod f)) mod f = 0"
proof -
  have "c + (f - c mod f) = f + (c - c mod f)" by simp
  also have "\<dots> = f + f * (c div f)" by (simp add: minus_mod_eq_mult_div)
  finally have "c + (f - c mod f) = f * (1 + c div f)" by (simp add: algebra_simps)
  then show ?thesis by (metis mod_mult_self1_is_0)
qed

lemma skippedCycles_append:
  "skippedCycles self queue n st = Some st' \<Longrightarrow>
   skippedCycles self queue (n + k) st = skippedCycles self queue k st'"
proof (induction n arbitrary: st)
  case 0
  then show ?case by simp
next
  case (Suc n)
  then show ?case
    by (auto split: sum.splits prod.splits bool.splits)
qed

lemma skippedCycles_stop:
  "backoff self queue st = Inr (False, st) \<Longrightarrow> skippedCycles self queue (Suc k) st = None"
  by simp

lemma after_failure:
  assumes f: "0 < failedQueueCycleFactor self"
    and z: "failedQueues st queue mod failedQueueCycleFactor self = 0"
  shows "skippedCycles self queue (nat (failedQueueCycleFactor self - 1)) (failQueue queue st) =
           Some (bumped queue (nat (failedQueueCycleFactor self)) st)"
    and "backoff self queue (bumped queue (nat (failedQueueCycleFactor self)) st) =
           Inr (False, bumped queue (nat (failedQueueCycleFactor self)) st)"
    and "skippedCycles self queue (nat (failedQueueCycleFactor self)) (failQueue queue st) = None"
proof -
  let ?f = "failedQueueCycleFactor self"
  let ?n = "nat (?f - 1)"
  let ?st1 = "failQueue queue st"
  have c1: "?f \<noteq> 1 \<Longrightarrow> failedQueues ?st1 queue mod ?f = 1"
    using f z mod_succ_below [of ?f "failedQueues st queue"] by simp
  have a: "failedQueues ?st1 queue mod ?f \<noteq> 0 \<or> ?n = 0"
    using c1 f by (cases "?f = 1") auto
  have b: "int ?n \<le> ?f - failedQueues ?st1 queue mod ?f"
    using c1 f by (cases "?f = 1") auto
  have "skippedCycles self queue ?n ?st1 = Some (bumped queue ?n ?st1)"
    using f a b by (rule skippedCycles_run)
  moreover have "Suc ?n = nat ?f" using f by simp
  ultimately show run: "skippedCycles self queue ?n ?st1 = Some (bumped queue (nat ?f) st)"
    by (simp add: bumped_failQueue)
  have "(failedQueues st queue + ?f) mod ?f = 0" using z by simp
  then show pass: "backoff self queue (bumped queue (nat ?f) st) = Inr (False, bumped queue (nat ?f) st)"
    using f by (simp add: backoff_pass)
  have e1: "skippedCycles self queue (?n + 1) ?st1 = skippedCycles self queue 1 (bumped queue (nat ?f) st)"
    using run by (rule skippedCycles_append)
  have e2: "skippedCycles self queue 1 (bumped queue (nat ?f) st) = None"
    using pass by simp
  have e3: "?n + 1 = nat ?f" using f by simp
  from e1 e2 have "skippedCycles self queue (?n + 1) ?st1 = None" by (simp only:)
  then show "skippedCycles self queue (nat ?f) ?st1 = None" by (simp only: e3)
qed

text \<open>
  C5, as stated, fails on its second half: with the cycle factor 10, a queue that has
  just failed (counter 1) is skipped in nine cycles in a row and eligible in the next
  one; there is no run of ten skipped cycles.
\<close>

theorem backoff_ten_cycles_counterexample:
  "skippedCycles site2 ''qA'' 9 (failQueue ''qA'' state0) = Some (bumped ''qA'' 10 state0) \<and>
   backoff site2 ''qA'' (bumped ''qA'' 10 state0) = Inr (False, bumped ''qA'' 10 state0) \<and>
   skippedCycles site2 ''qA'' 10 (failQueue ''qA'' state0) = None"
proof -
  have f: "0 < failedQueueCycleFactor site2" and v: "failedQueueCycleFactor site2 = 10"
    by (simp_all add: site2_def)
  have z: "failedQueues state0 ''qA'' mod failedQueueCycleFactor site2 = 0"
    by (simp add: state0_def)
  show ?thesis
    using after_failure [OF f z] by (simp add: v)
qed

text \<open>
  C5, amended: for a positive cycle factor f, the gate skips a queue with failure
  counter c exactly when c mod f is not 0. A queue that was eligible and then fails
  once is skipped in the next f - 1 cycles in a row, not in f of them, and is eligible
  in the cycle after these.
\<close>

theorem backoff_period:
  assumes "0 < failedQueueCycleFactor self"
  shows "((\<exists>st'. backoff self queue st = Inr (True, st')) \<longleftrightarrow>
            failedQueues st queue mod failedQueueCycleFactor self \<noteq> 0) \<and>
         (failedQueues st queue mod failedQueueCycleFactor self = 0 \<longrightarrow>
            skippedCycles self queue (nat (failedQueueCycleFactor self - 1)) (failQueue queue st) =
              Some (bumped queue (nat (failedQueueCycleFactor self)) st) \<and>
            backoff self queue (bumped queue (nat (failedQueueCycleFactor self)) st) =
              Inr (False, bumped queue (nat (failedQueueCycleFactor self)) st) \<and>
            skippedCycles self queue (nat (failedQueueCycleFactor self)) (failQueue queue st) = None)"
proof -
  have "(\<exists>st'. backoff self queue st = Inr (True, st')) \<longleftrightarrow>
          failedQueues st queue mod failedQueueCycleFactor self \<noteq> 0"
    using assms by (auto simp: backoff_def Let_def)
  moreover have "failedQueues st queue mod failedQueueCycleFactor self = 0 \<longrightarrow>
      skippedCycles self queue (nat (failedQueueCycleFactor self - 1)) (failQueue queue st) =
        Some (bumped queue (nat (failedQueueCycleFactor self)) st) \<and>
      backoff self queue (bumped queue (nat (failedQueueCycleFactor self)) st) =
        Inr (False, bumped queue (nat (failedQueueCycleFactor self)) st) \<and>
      skippedCycles self queue (nat (failedQueueCycleFactor self)) (failQueue queue st) = None"
  proof
    assume z: "failedQueues st queue mod failedQueueCycleFactor self = 0"
    show "skippedCycles self queue (nat (failedQueueCycleFactor self - 1)) (failQueue queue st) =
        Some (bumped queue (nat (failedQueueCycleFactor self)) st) \<and>
      backoff self queue (bumped queue (nat (failedQueueCycleFactor self)) st) =
        Inr (False, bumped queue (nat (failedQueueCycleFactor self)) st) \<and>
      skippedCycles self queue (nat (failedQueueCycleFactor self)) (failQueue queue st) = None"
      by (intro conjI after_failure [OF assms z])
  qed
  ultimately show ?thesis by (rule conjI)
qed

theorem backoff_period_witness:
  "0 < failedQueueCycleFactor site2 \<and>
   failedQueues state0 ''qB'' mod failedQueueCycleFactor site2 = 0 \<and>
   backoff site2 ''qB'' state0 = Inr (False, state0) \<and>
   skippedCycles site2 ''qB'' 9 (failQueue ''qB'' state0) = Some (bumped ''qB'' 10 state0) \<and>
   backoff site2 ''qB'' (bumped ''qB'' 10 state0) = Inr (False, bumped ''qB'' 10 state0) \<and>
   skippedCycles site2 ''qB'' 10 (failQueue ''qB'' state0) = None"
proof -
  have f: "0 < failedQueueCycleFactor site2" and v: "failedQueueCycleFactor site2 = 10"
    by (simp_all add: site2_def)
  have z: "failedQueues state0 ''qB'' mod failedQueueCycleFactor site2 = 0"
    by (simp add: state0_def)
  have p: "backoff site2 ''qB'' state0 = Inr (False, state0)"
    using z by (simp add: backoff_def v)
  show ?thesis
    using f z p backoff_period [OF f, of "''qB''" state0] by (simp add: v)
qed

lemma queuePrelude_skip:
  "failedQueueCycleFactor self \<noteq> 0 \<Longrightarrow>
   failedQueues st queue mod failedQueueCycleFactor self \<noteq> 0 \<Longrightarrow>
   queuePrelude e self dm siteMaskList queue st = QueueSkip (failQueue queue st)"
  by (simp add: queuePrelude_def backoff_skip)

text \<open>
  C9: when the gate skips a queue, the skip adds exactly 1 to the failure counter of
  that queue and does nothing else; so a queue with counter c and a positive cycle
  factor f is skipped in f - (c mod f) cycles in a row and eligible in the next one.
\<close>

theorem skip_increments_counter:
  assumes f: "0 < failedQueueCycleFactor self"
    and nz: "failedQueues st queue mod failedQueueCycleFactor self \<noteq> 0"
  shows "processQueue fuel e self dm siteMaskList queue st = Some (Next (failQueue queue st)) \<and>
         failedQueues (failQueue queue st) queue = failedQueues st queue + 1 \<and>
         (\<forall>k \<le> nat (failedQueueCycleFactor self - failedQueues st queue mod failedQueueCycleFactor self).
            skippedCycles self queue k st = Some (bumped queue k st)) \<and>
         backoff self queue
           (bumped queue (nat (failedQueueCycleFactor self - failedQueues st queue mod failedQueueCycleFactor self)) st) =
         Inr (False,
           bumped queue (nat (failedQueueCycleFactor self - failedQueues st queue mod failedQueueCycleFactor self)) st)"
proof -
  let ?f = "failedQueueCycleFactor self"
  let ?c = "failedQueues st queue"
  have lt: "?c mod ?f < ?f" using f by simp
  have "processQueue fuel e self dm siteMaskList queue st = Some (Next (failQueue queue st))"
    using f nz by (simp add: processQueue_def queuePrelude_skip)
  moreover have "\<forall>k \<le> nat (?f - ?c mod ?f). skippedCycles self queue k st = Some (bumped queue k st)"
  proof (intro allI impI)
    fix k assume "k \<le> nat (?f - ?c mod ?f)"
    then have "int k \<le> ?f - ?c mod ?f" using lt by simp
    with f nz show "skippedCycles self queue k st = Some (bumped queue k st)"
      by (simp add: skippedCycles_run)
  qed
  moreover have "(?c + int (nat (?f - ?c mod ?f))) mod ?f = 0"
    using lt eligible_after [OF f, of ?c] by simp
  then have "backoff self queue (bumped queue (nat (?f - ?c mod ?f)) st) =
      Inr (False, bumped queue (nat (?f - ?c mod ?f)) st)"
    using f by (simp add: backoff_pass)
  ultimately show ?thesis by simp
qed

theorem skip_increments_counter_witness:
  "0 < failedQueueCycleFactor site2 \<and>
   failedQueues (bumped ''qA'' 7 state0) ''qA'' mod failedQueueCycleFactor site2 \<noteq> 0 \<and>
   processQueue 0 baseEnv site2 (demandOf [(7, tq7)]) [] ''qA'' (bumped ''qA'' 7 state0) =
     Some (Next (failQueue ''qA'' (bumped ''qA'' 7 state0))) \<and>
   failedQueues (failQueue ''qA'' (bumped ''qA'' 7 state0)) ''qA'' = 8 \<and>
   skippedCycles site2 ''qA'' 3 (bumped ''qA'' 7 state0) = Some (bumped ''qA'' 3 (bumped ''qA'' 7 state0)) \<and>
   backoff site2 ''qA'' (bumped ''qA'' 3 (bumped ''qA'' 7 state0)) =
     Inr (False, bumped ''qA'' 3 (bumped ''qA'' 7 state0))"
proof -
  have f: "0 < failedQueueCycleFactor site2" and v: "failedQueueCycleFactor site2 = 10"
    by (simp_all add: site2_def)
  have c: "failedQueues (bumped ''qA'' 7 state0) ''qA'' = 7"
    by (simp add: state0_def)
  have nz: "failedQueues (bumped ''qA'' 7 state0) ''qA'' mod failedQueueCycleFactor site2 \<noteq> 0"
    by (simp add: state0_def v)
  show ?thesis
    using f nz skip_increments_counter [OF f nz, of 0 baseEnv "demandOf [(7, tq7)]" "[]"]
    by (simp add: state0_def v)
qed

text \<open>
  C10: a queue that passes the gate on the failure counter and the two gates on its
  site, and whose \<open>ParametersDict\<close> has no \<open>CPUTime\<close>, is left without any call and
  without any change of the state: no request to the Matcher, no pilot, the same
  failure counters; the loop goes on with the next queue.
\<close>

theorem no_CPUTime_skips_queue:
  assumes "failedQueueCycleFactor self \<noteq> 0"
    and "failedQueues st queue mod failedQueueCycleFactor self = 0"
    and "map_of (queueDict self) queue = Some q"
    and "Tags (ParametersDict q) = Some queueTags"
    and "anySite dm \<or> Site q \<in> jobSites dm"
    and "Site q \<in> set siteMaskList \<or> Site q \<in> testSites dm"
    and "CPUTime (ParametersDict q) = None"
  shows "processQueue fuel e self dm siteMaskList queue st = Some (Next st) \<and>
         queueLoop fuel e self dm siteMaskList (queue # queues) st =
           queueLoop fuel e self dm siteMaskList queues st"
proof -
  have "queuePrelude e self dm siteMaskList queue st = QueueSkip st"
    using assms by (auto simp: queuePrelude_def backoff_pass Let_def)
  then have "processQueue fuel e self dm siteMaskList queue st = Some (Next st)"
    by (simp add: processQueue_def)
  then show ?thesis by simp
qed

theorem no_CPUTime_skips_queue_witness:
  "failedQueueCycleFactor siteNoCPU \<noteq> 0 \<and>
   failedQueues state0 ''qA'' mod failedQueueCycleFactor siteNoCPU = 0 \<and>
   map_of (queueDict siteNoCPU) ''qA'' = Some (queueA\<lparr>ParametersDict := params4\<lparr>CPUTime := None\<rparr>\<rparr>) \<and>
   anySite (demandOf [(7, tq7)]) \<and>
   ''LCG.Site.org'' \<in> set [''LCG.Site.org''] \<and>
   processQueue 1 baseEnv siteNoCPU (demandOf [(7, tq7)]) [''LCG.Site.org''] ''qA'' state0 =
     Some (Next state0) \<and>
   queueLoop 1 baseEnv siteNoCPU (demandOf [(7, tq7)]) [''LCG.Site.org''] [''qA''] state0 =
     Some (Next state0)"
proof -
  let ?q = "queueA\<lparr>ParametersDict := params4\<lparr>CPUTime := None\<rparr>\<rparr>"
  have a: "failedQueueCycleFactor siteNoCPU \<noteq> 0" by (simp add: siteNoCPU_def site2_def)
  have b: "failedQueues state0 ''qA'' mod failedQueueCycleFactor siteNoCPU = 0"
    by (simp add: state0_def)
  have c: "map_of (queueDict siteNoCPU) ''qA'' = Some ?q" by (simp add: siteNoCPU_def)
  have d: "Tags (ParametersDict ?q) = Some (map processorsTag [1 .. 4])" by (simp add: params4_def)
  have any: "anySite (demandOf [(7, tq7)])" by (simp add: demandOf_def demandStep_def tq7_def)
  have g: "anySite (demandOf [(7, tq7)]) \<or> Site ?q \<in> jobSites (demandOf [(7, tq7)])"
    using any by simp
  have h: "Site ?q \<in> set [''LCG.Site.org''] \<or> Site ?q \<in> testSites (demandOf [(7, tq7)])"
    by (simp add: queueA_def)
  have i: "CPUTime (ParametersDict ?q) = None" by simp
  show ?thesis
    using a b c any no_CPUTime_skips_queue [OF a b c d g h i, of 1 baseEnv "[]"] by simp
qed

text \<open>
  C8: when the first request to the Matcher succeeds and returns no task queue,
  \<open>submitJobs\<close> returns \<open>S_OK\<close> at once. The only calls made are the two that lead to
  this answer: no queue is asked about, no pilot is submitted, and the failure counters
  are the same as before.
\<close>

theorem no_demand_ends_cycle:
  assumes "getCompatiblePlatforms e (trace st) (platforms self) = S_OK compatible"
    and "collectTags (queueDict self) = Some tags"
    and "getMatchingTaskQueues e (trace st @ [CompatiblePlatforms (platforms self)])
           (globalCriteria self compatible tags) = S_OK []"
  shows "submitJobs fuel e self st =
           Some (Returned (S_OK ()),
                 st\<lparr>trace := trace st @ [CompatiblePlatforms (platforms self),
                                         MatchingTaskQueues (globalCriteria self compatible tags)]\<rparr>)"
  using assms by (simp add: submitJobs_def emit_def Let_def)

theorem no_demand_ends_cycle_witness:
  "getCompatiblePlatforms idleEnv (trace state0) (platforms site2) = S_OK [''x86_64''] \<and>
   collectTags (queueDict site2) = Some (map processorsTag [1 .. 4] @ map processorsTag [1 .. 4]) \<and>
   getMatchingTaskQueues idleEnv (trace state0 @ [CompatiblePlatforms (platforms site2)])
     (globalCriteria site2 [''x86_64''] (map processorsTag [1 .. 4] @ map processorsTag [1 .. 4])) = S_OK [] \<and>
   submitJobs 0 idleEnv site2 state0 =
     Some (Returned (S_OK ()),
           state0\<lparr>trace := [CompatiblePlatforms [''x86_64''],
              MatchingTaskQueues (globalCriteria site2 [''x86_64'']
                (map processorsTag [1 .. 4] @ map processorsTag [1 .. 4]))]\<rparr>)"
proof -
  have a: "getCompatiblePlatforms idleEnv (trace state0) (platforms site2) = S_OK [''x86_64'']"
    by (simp add: idleEnv_def baseEnv_def site2_def)
  have b: "collectTags (queueDict site2) = Some (map processorsTag [1 .. 4] @ map processorsTag [1 .. 4])"
    by (simp add: site2_def queueA_def params4_def)
  have c: "getMatchingTaskQueues idleEnv (trace state0 @ [CompatiblePlatforms (platforms site2)])
     (globalCriteria site2 [''x86_64''] (map processorsTag [1 .. 4] @ map processorsTag [1 .. 4])) = S_OK []"
    by (simp add: idleEnv_def)
  have t: "trace state0 = []" "platforms site2 = [''x86_64'']"
    by (simp_all add: state0_def site2_def)
  show ?thesis
    using a b c no_demand_ends_cycle [OF a b c, of 0] by (simp add: t)
qed

subsection \<open>The submission loop\<close>

lemma emit_fields [simp]:
  "trace (emit ev st) = trace st @ [ev]"
  "failedQueues (emit ev st) = failedQueues st"
  "queueSlots (emit ev st) = queueSlots st"
  "totalSubmittedPilots (emit ev st) = totalSubmittedPilots st"
  "matchedQueues (emit ev st) = matchedQueues st"
  "tqID (emit ev st) = tqID st"
  by (simp_all add: emit_def)

lemma assignPilots_keeps:
  "assignPilots e pl s pilots tqd st = Inr (tqd', st') \<Longrightarrow>
   totalSubmittedPilots st' = totalSubmittedPilots st \<and> failedQueues st' = failedQueues st \<and>
   queueSlots st' = queueSlots st"
proof (induction pilots arbitrary: tqd st)
  case Nil
  then show ?case by simp
next
  case (Cons pilotID pilots)
  then show ?case
    by (auto simp: Let_def emit_def split: option.splits)
qed

lemma setStatuses_keeps:
  "totalSubmittedPilots (setStatuses e pilots st) = totalSubmittedPilots st \<and>
   failedQueues (setStatuses e pilots st) = failedQueues st \<and>
   queueSlots (setStatuses e pilots st) = queueSlots st"
  by (induction pilots arbitrary: st) (simp_all add: emit_def)

lemma recordPilots_keeps:
  "totalSubmittedPilots (recordPilots e tqd st) = totalSubmittedPilots st \<and>
   failedQueues (recordPilots e tqd st) = failedQueues st \<and>
   queueSlots (recordPilots e tqd st) = queueSlots st"
proof (induction tqd arbitrary: st)
  case Nil
  then show ?case by simp
next
  case (Cons a tqd)
  obtain t pilotList where a: "a = (t, pilotList)" by (cases a)
  show ?case
    unfolding a using Cons.IH
    by (simp add: Let_def emit_def setStatuses_keeps split: result.splits)
qed

lemma submitBody_Next_cases:
  assumes "submitBody e queue q d ids processors (p, qs, st) = Next (p', qs', st')"
  obtains (failed) x chunk m where
      "getExecutable e (trace st) queue p = S_OK (x, chunk)"
      "submitJob e (trace st @ [Executable queue p]) queue x chunk processors = S_ERROR m"
      "p' = 0" "qs' = qs" "totalSubmittedPilots st' = totalSubmittedPilots st"
      "failedQueues st' = (failedQueues st)(queue := failedQueues st queue + 1)"
  | (submitted) x chunk pl where
      "getExecutable e (trace st) queue p = S_OK (x, chunk)"
      "submitJob e (trace st @ [Executable queue p]) queue x chunk processors = S_OK pl"
      "p' = p - chunk" "qs' = qs + chunk"
      "totalSubmittedPilots st' = totalSubmittedPilots st + int (length pl)"
      "failedQueues st' = failedQueues st"
proof (cases "getExecutable e (trace st) queue p")
  case (S_ERROR m)
  with assms show ?thesis by (simp add: submitBody_def)
next
  case (S_OK xc)
  obtain x chunk where xc: "xc = (x, chunk)" by (cases xc)
  note ex = S_OK [unfolded xc]
  show ?thesis
  proof (cases "submitJob e (trace st @ [Executable queue p]) queue x chunk processors")
    case (S_ERROR m)
    with assms ex have "p' = 0" "qs' = qs" "totalSubmittedPilots st' = totalSubmittedPilots st"
        "failedQueues st' = (failedQueues st)(queue := failedQueues st queue + 1)"
      by (auto simp: submitBody_def emit_def failQueue_def Let_def)
    with ex S_ERROR show ?thesis by (rule failed)
  next
    case (S_OK pl)
    from assms ex S_OK
    have "p' = p - chunk" "qs' = qs + chunk"
        "totalSubmittedPilots st' = totalSubmittedPilots st + int (length pl)"
        "failedQueues st' = failedQueues st"
      by (auto simp: submitBody_def Let_def recordPilots_keeps
               split: option.splits sum.splits prod.splits if_splits
               dest!: assignPilots_keeps)
    with ex S_OK show ?thesis by (rule submitted)
  qed
qed

lemma loopIter_invariant:
  assumes h: "chunkWithinRequest e"
  shows "loopIter n e queue q d ids processors (p0, qs0, st0) = Some (p, qs, st) \<Longrightarrow>
         qs + max 0 p \<le> qs0 + max 0 p0 \<and>
         (pilotsWithinChunk e \<longrightarrow>
            totalSubmittedPilots st - totalSubmittedPilots st0 \<le> qs - qs0)"
proof (induction n arbitrary: p0 qs0 st0)
  case 0
  then show ?case by simp
next
  case (Suc n)
  from Suc.prems have pos: "0 < p0" by (simp split: if_splits)
  from Suc.prems pos obtain p1 qs1 st1 where
      body: "submitBody e queue q d ids processors (p0, qs0, st0) = Next (p1, qs1, st1)"
    and rest: "loopIter n e queue q d ids processors (p1, qs1, st1) = Some (p, qs, st)"
    by (auto split: flow.splits)
  note ih = Suc.IH [OF rest]
  from body show ?case
  proof (cases rule: submitBody_Next_cases)
    case (failed x chunk m)
    with ih pos show ?thesis by auto
  next
    case (submitted x chunk pl)
    have le: "chunk \<le> p0"
      using h pos submitted(1) unfolding chunkWithinRequest_def by blast
    have "pilotsWithinChunk e \<Longrightarrow> int (length pl) \<le> chunk"
      using pos submitted(1,2) unfolding pilotsWithinChunk_def by blast
    with ih submitted le pos show ?thesis by auto
  qed
qed

lemma budget_floor:
  "max 0 (pilotsBudget totalSlots jobs waiting maxPilots qs0) =
   max 0 (min totalSlots (min (jobs - waiting) (maxPilots - qs0)))"
  by (simp add: pilotsBudget_def max_def min_def)

lemma submitLoop_reaches:
  "submitLoop fuel e queue q d ids processors c = Some (Next c') \<Longrightarrow>
   \<exists>n \<le> fuel. loopIter n e queue q d ids processors c = Some c' \<and> \<not> 0 < fst c'"
proof (induction fuel arbitrary: c)
  case 0
  then have "c' = c" "\<not> 0 < fst c" by (auto split: if_splits)
  then show ?case by simp
next
  case (Suc fuel)
  show ?case
  proof (cases "0 < fst c")
    case False
    with Suc.prems have "c' = c" by simp
    with False have "loopIter 0 e queue q d ids processors c = Some c' \<and> \<not> 0 < fst c'" by simp
    then show ?thesis by blast
  next
    case True
    with Suc.prems obtain c1 where
        b: "submitBody e queue q d ids processors c = Next c1"
      and r: "submitLoop fuel e queue q d ids processors c1 = Some (Next c')"
      by (auto split: flow.splits)
    from Suc.IH [OF r] obtain n where
      n: "n \<le> fuel" "loopIter n e queue q d ids processors c1 = Some c'" "\<not> 0 < fst c'"
      by blast
    have "loopIter (Suc n) e queue q d ids processors c = Some c'"
      using True b n(2) by simp
    with n(1,3) show ?thesis by (metis Suc_le_mono)
  qed
qed

text \<open>
  C1: the loop of a tag starts with the budget of lines 293 and 298. As long as
  \<open>getExecutable\<close> returns no chunk larger than the number of pilots it is asked for,
  the pilots submitted for the tag, as the agent counts them in
  \<open>queueSubmittedPilots\<close>, never exceed the minimum of the available slots, of the jobs
  of the tag less its waiting pilots, and of \<open>maxPilotsToSubmit\<close> less the pilots
  already submitted to the queue, floored at zero; this holds at the head of the loop
  after every pass. When the endpoint also returns no more pilot references than the
  chunk, the same bound holds for the pilot references returned.
\<close>

theorem submitted_within_budget:
  assumes "chunkWithinRequest e"
    and "loopIter n e queue q d ids processors
           (pilotsBudget totalSlots tagTQJobs tagWaitingPilots maxPilots qs0, qs0, st0) = Some (p, qs, st)"
  shows "qs - qs0 \<le> max 0 (min totalSlots (min (tagTQJobs - tagWaitingPilots) (maxPilots - qs0))) \<and>
         (pilotsWithinChunk e \<longrightarrow>
            totalSubmittedPilots st - totalSubmittedPilots st0 \<le>
              max 0 (min totalSlots (min (tagTQJobs - tagWaitingPilots) (maxPilots - qs0))))"
proof -
  let ?B = "max 0 (min totalSlots (min (tagTQJobs - tagWaitingPilots) (maxPilots - qs0)))"
  from loopIter_invariant [OF assms]
  have a: "qs + max 0 p \<le> qs0 + ?B"
    and b: "pilotsWithinChunk e \<longrightarrow> totalSubmittedPilots st - totalSubmittedPilots st0 \<le> qs - qs0"
    by (simp_all add: budget_floor)
  from a have "qs - qs0 \<le> ?B" by simp
  with b show ?thesis by auto
qed

lemma baseEnv_chunks: "chunkWithinRequest baseEnv" "pilotsWithinChunk baseEnv"
  by (auto simp: chunkWithinRequest_def pilotsWithinChunk_def baseEnv_def pilotNames_def)

lemma pilotNames_small:
  "pilotNames 1 = [''pilot0'']" "pilotNames 2 = [''pilot0'', ''pilot1'']"
  by (simp_all add: pilotNames_def upt_rec show_nat.simps digit_char_def digits_def)

lemma baseEnv_two_passes:
  "\<exists>st. loopIter 2 baseEnv ''qA'' queueA [(7, tq7)] [7] 2 (pilotsBudget 10 3 0 100 0, 0, state0) =
          Some (0, 3, st) \<and> totalSubmittedPilots st = 3"
  by (simp add: numeral_2_eq_2 pilotsBudget_def submitBody_def baseEnv_def Let_def tq7_def
      queueA_def state0_def pilotNames_small appendPilot_def emit_def
      exact_add_def exact_mul_def exact_less_def)

theorem submitted_within_budget_witness:
  "chunkWithinRequest baseEnv \<and> pilotsWithinChunk baseEnv \<and>
   (\<exists>st. loopIter 2 baseEnv ''qA'' queueA [(7, tq7)] [7] 2 (pilotsBudget 10 3 0 100 0, 0, state0) =
            Some (0, 3, st) \<and>
          3 - 0 \<le> max 0 (min 10 (min (3 - 0) (100 - (0::int)))) \<and>
          totalSubmittedPilots st - totalSubmittedPilots state0 \<le>
            max 0 (min 10 (min (3 - 0) (100 - (0::int)))))"
proof -
  obtain st where r: "loopIter 2 baseEnv ''qA'' queueA [(7, tq7)] [7] 2
      (pilotsBudget 10 3 0 100 0, 0, state0) = Some (0, 3, st)"
    using baseEnv_two_passes by blast
  from submitted_within_budget [OF baseEnv_chunks(1) r] baseEnv_chunks r
  show ?thesis by blast
qed

subsection \<open>Failures inside a queue\<close>

lemma submitLoop_done: "\<not> 0 < fst c \<Longrightarrow> submitLoop n e queue q d ids processors c = Some (Next c)"
  by (cases n) simp_all

lemma loopIter_submitLoop:
  "loopIter k e queue q d ids processors c0 = Some c \<Longrightarrow>
   submitLoop (k + n) e queue q d ids processors c0 = submitLoop n e queue q d ids processors c"
proof (induction k arbitrary: c0)
  case 0
  then show ?case by simp
next
  case (Suc k)
  then show ?case by (auto split: if_splits flow.splits)
qed

lemma tagLoop_append:
  "tagLoop fuel e self queue q cpu d (xs @ ys) c =
     (case tagLoop fuel e self queue q cpu d xs c of
        None \<Rightarrow> None
      | Some (Next c') \<Rightarrow> tagLoop fuel e self queue q cpu d ys c'
      | Some (Stop out st) \<Rightarrow> Some (Stop out st))"
proof (induction xs arbitrary: c)
  case Nil
  then show ?case by simp
next
  case (Cons b xs)
  then show ?case by (simp split: option.splits flow.splits)
qed

lemma submitBody_failed:
  assumes "getExecutable e (trace st) queue p = S_OK (x, chunk)"
    and "submitJob e (trace st @ [Executable queue p]) queue x chunk processors = S_ERROR m"
  shows "submitBody e queue q d ids processors (p, qs, st) =
           Next (0, qs, failQueue queue (st\<lparr>trace := trace st @ submitCalls queue q x chunk processors p\<rparr>))"
  using assms by (simp add: submitBody_def submitCalls_def Let_def emit_def)

text \<open>
  The place of a tag in the cycle: the queue has passed its gates and got task queues
  from the Matcher, the tags before this one are done, and this tag starts its loop.
\<close>

lemma queueLoop_at_tag:
  assumes "queuePrelude e self dm siteMaskList queue sq = QueueRun q cpu d (done @ b # bs) sq1"
    and "tagLoop fuel e self queue q cpu d done (0, sq1) = Some (Next c0)"
  shows "queueLoop fuel e self dm siteMaskList (queue # queues) sq =
           (case processTag fuel e self queue q cpu d b c0 of
              None \<Rightarrow> None
            | Some (Stop out st) \<Rightarrow> Some (Stop out st)
            | Some (Next c1) \<Rightarrow>
                (case tagLoop fuel e self queue q cpu d bs c1 of
                   None \<Rightarrow> None
                 | Some (Stop out st) \<Rightarrow> Some (Stop out st)
                 | Some (Next c2) \<Rightarrow> queueLoop fuel e self dm siteMaskList queues (snd c2)))"
  using assms
  by (simp add: processQueue_def tagLoop_append split: option.splits flow.splits prod.splits)

lemma failed_submission:
  assumes pre: "tagPrelude e self queue cpu ids jobs qs0 st0 = TagRun p0 st1"
    and reach: "loopIter k e queue q d ids (processorsOf tag) (p0, qs0, st1) = Some (p, qs, st)"
    and fuel: "k < fuel"
    and pos: "0 < p"
    and ex: "getExecutable e (trace st) queue p = S_OK (x, chunk)"
    and fail: "submitJob e (trace st @ [Executable queue p]) queue x chunk (processorsOf tag) = S_ERROR m"
  shows "processTag fuel e self queue q cpu d (tag, ids, jobs) (qs0, st0) =
           Some (Next (qs, failQueue queue
             (st\<lparr>trace := trace st @ submitCalls queue q x chunk (processorsOf tag) p\<rparr>)))"
proof -
  let ?st' = "failQueue queue (st\<lparr>trace := trace st @ submitCalls queue q x chunk (processorsOf tag) p\<rparr>)"
  from fuel obtain n where n: "fuel = k + Suc n"
    by (metis add_Suc_right less_iff_Suc_add)
  have "submitLoop fuel e queue q d ids (processorsOf tag) (p0, qs0, st1) =
          submitLoop (Suc n) e queue q d ids (processorsOf tag) (p, qs, st)"
    unfolding n using reach by (rule loopIter_submitLoop)
  also have "\<dots> = submitLoop n e queue q d ids (processorsOf tag) (0, qs, ?st')"
    using pos submitBody_failed [OF ex fail, of q d ids qs] by simp
  also have "\<dots> = Some (Next (0, qs, ?st'))"
    by (simp add: submitLoop_done)
  finally show ?thesis
    using pre by (simp add: processTag_def)
qed

text \<open>
  C7: when the endpoint refuses a submission for a tag, in whatever pass of the loop,
  the pass ends with \<open>pilotsToSubmit\<close> at zero, so the loop of the tag ends; the failure
  counter of the queue has grown by exactly 1; nothing of the call is recorded (the
  only calls are those of the submission itself, and the counts of submitted pilots
  are unchanged); and the cycle goes on with the remaining tags of the queue and then
  with the remaining queues.
\<close>

theorem failed_submission_continues:
  assumes "queuePrelude e self dm siteMaskList queue sq = QueueRun q cpu d (done @ (tag, ids, jobs) # bs) sq1"
    and "tagLoop fuel e self queue q cpu d done (0, sq1) = Some (Next (qs0, st0))"
    and "tagPrelude e self queue cpu ids jobs qs0 st0 = TagRun p0 st1"
    and "loopIter k e queue q d ids (processorsOf tag) (p0, qs0, st1) = Some (p, qs, st)"
    and "k < fuel"
    and "0 < p"
    and "getExecutable e (trace st) queue p = S_OK (x, chunk)"
    and "submitJob e (trace st @ [Executable queue p]) queue x chunk (processorsOf tag) = S_ERROR m"
    and "st' = failQueue queue (st\<lparr>trace := trace st @ submitCalls queue q x chunk (processorsOf tag) p\<rparr>)"
  shows "submitBody e queue q d ids (processorsOf tag) (p, qs, st) = Next (0, qs, st') \<and>
         failedQueues st' queue = failedQueues st queue + 1 \<and>
         totalSubmittedPilots st' = totalSubmittedPilots st \<and>
         processTag fuel e self queue q cpu d (tag, ids, jobs) (qs0, st0) = Some (Next (qs, st')) \<and>
         queueLoop fuel e self dm siteMaskList (queue # queues) sq =
           (case tagLoop fuel e self queue q cpu d bs (qs, st') of
              None \<Rightarrow> None
            | Some (Stop out s) \<Rightarrow> Some (Stop out s)
            | Some (Next c2) \<Rightarrow> queueLoop fuel e self dm siteMaskList queues (snd c2))"
proof -
  have a: "submitBody e queue q d ids (processorsOf tag) (p, qs, st) = Next (0, qs, st')"
    unfolding assms(9) using assms(7,8) by (rule submitBody_failed)
  have b: "failedQueues st' queue = failedQueues st queue + 1"
    "totalSubmittedPilots st' = totalSubmittedPilots st"
    by (simp_all add: assms(9) failQueue_def)
  have c: "processTag fuel e self queue q cpu d (tag, ids, jobs) (qs0, st0) = Some (Next (qs, st'))"
    unfolding assms(9) using assms(3-8) by (rule failed_submission)
  have "queueLoop fuel e self dm siteMaskList (queue # queues) sq =
           (case tagLoop fuel e self queue q cpu d bs (qs, st') of
              None \<Rightarrow> None
            | Some (Stop out s) \<Rightarrow> Some (Stop out s)
            | Some (Next c2) \<Rightarrow> queueLoop fuel e self dm siteMaskList queues (snd c2))"
    unfolding queueLoop_at_tag [OF assms(1,2)] c by simp
  with a b c show ?thesis by simp
qed

subsection \<open>The example site, step by step\<close>

lemma params4_tags: "Tags params4 = Some tags4"
  by (simp add: params4_def tags4_def upto_small processorsTag_small)

lemma matchProcessors_tags4:
  "matchProcessors ''1Processors'' = Some ''1''" "matchProcessors ''2Processors'' = Some ''2''"
  "matchProcessors ''3Processors'' = Some ''3''" "matchProcessors ''4Processors'' = Some ''4''"
  by (simp_all add: matchProcessors_def isdigit_def digits_def)

lemma processorTagsOf_tags4: "processorTagsOf tags4 = tags4"
  by (simp add: processorTagsOf_def tags4_def matchProcessors_tags4)

lemma processorsOf_2: "processorsOf ''2Processors'' = 2"
  by (simp add: processorsOf_def matchProcessors_tags4 digits_val_def digit_val_chars)

lemma buckets_tq7: "buildBuckets tags4 [(7, tq7)] = [(''2Processors'', [7], 3)]"
  by (simp add: buildBuckets_def bucketStep_def addToBucket_def tq7_def tags4_def)

lemma demand_tq7: "anySite (demandOf [(7, tq7)])"
  by (simp add: demandOf_def demandStep_def tq7_def)

lemma queuePrelude_site2_any:
  assumes "failedQueues st ''qA'' = 0"
    and "getCompatiblePlatforms e (trace st) [''x86_64''] = S_OK [''x86_64'']"
    and "getMatchingTaskQueues e (trace st @ [CompatiblePlatforms [''x86_64'']]) criteriaA = r"
  shows "queuePrelude e site2 (demandOf [(7, tq7)]) [''LCG.Site.org''] ''qA'' st =
           (case r of
              S_ERROR m \<Rightarrow> QueueStop (Returned (S_ERROR m))
                 (st\<lparr>trace := trace st @ [CompatiblePlatforms [''x86_64''], MatchingTaskQueues criteriaA]\<rparr>)
            | S_OK taskQueueDict \<Rightarrow>
                if taskQueueDict = []
                then QueueSkip (st\<lparr>trace := trace st @ [CompatiblePlatforms [''x86_64''], MatchingTaskQueues criteriaA]\<rparr>)
                else QueueRun queueA 3600 taskQueueDict (buildBuckets tags4 taskQueueDict)
                       (st\<lparr>trace := trace st @ [CompatiblePlatforms [''x86_64''], MatchingTaskQueues criteriaA],
                           matchedQueues := matchedQueues st + 1\<rparr>))"
proof -
  have q: "map_of (queueDict site2) ''qA'' = Some queueA" by (simp add: site2_def)
  have b: "backoff site2 ''qA'' st = Inr (False, st)"
    using assms(1) by (simp add: backoff_def site2_def)
  have f: "Site queueA = ''LCG.Site.org''" "Platform queueA = ''x86_64''"
    "ParametersDict queueA = params4" "CPUTime params4 = Some (PyStr ''3600'')"
    "maxQueueLength site2 = 259200"
    by (simp_all add: queueA_def params4_def site2_def)
  show ?thesis
    using assms(2,3)
    by (simp add: queuePrelude_def q b f params4_tags processorTagsOf_tags4 demand_tq7
        py_int_small Let_def emit_def criteriaA_def [symmetric] split: result.splits)
qed

lemma queuePrelude_site2:
  assumes "getCompatiblePlatforms e [] [''x86_64''] = S_OK [''x86_64'']"
    and "getMatchingTaskQueues e [CompatiblePlatforms [''x86_64'']] criteriaA = S_OK [(7, tq7)]"
  shows "queuePrelude e site2 (demandOf [(7, tq7)]) [''LCG.Site.org''] ''qA'' state0 =
           QueueRun queueA 3600 [(7, tq7)] [(''2Processors'', [7], 3)] probedState"
proof -
  have s: "failedQueues state0 ''qA'' = 0" "trace state0 = []" "matchedQueues state0 = 0"
    by (simp_all add: state0_def)
  show ?thesis
    using queuePrelude_site2_any [of state0 e "S_OK [(7, tq7)]"] assms
    by (simp add: s buckets_tq7 probedState_def)
qed

lemma tagPrelude_site2:
  assumes "countPilots e (trace probedState) [7] = S_OK 0"
    and "getPilotProxyFromDIRACGroup e (trace countedState) 90000 = r"
    and "getQueueSlots e = (\<lambda>tr queue n. (10, 10))"
  shows "tagPrelude e site2 ''qA'' 3600 [7] 3 0 probedState =
           (case r of
              S_ERROR m \<Rightarrow> TagStop (Returned (S_ERROR m)) (emit (PilotProxy 90000) countedState)
            | S_OK proxy \<Rightarrow>
                TagRun 3 (probedState\<lparr>trace := trace probedState @
                     [CountPilots [7], PilotProxy 90000, SetProxy proxy 89940, QueueSlots ''qA''],
                  queueSlots := (queueSlots probedState)(''qA'' := 10)\<rparr>))"
proof -
  have w: "waitingPilots e site2 [7] probedState = (0, countedState)"
    using assms(1) by (simp add: waitingPilots_def site2_def countedState_def emit_def)
  have m: "maxPilotsToSubmit site2 = 100" by (simp add: site2_def)
  show ?thesis
    using assms(2,3)
    by (simp add: tagPrelude_def w m Let_def emit_def pilotsBudget_def countedState_def
        split: result.splits)
qed

lemma tagPrelude_ready:
  assumes "countPilots e (trace probedState) [7] = S_OK 0"
    and "getPilotProxyFromDIRACGroup e (trace countedState) 90000 = S_OK ''proxy''"
    and "getQueueSlots e = (\<lambda>tr queue n. (10, 10))"
  shows "tagPrelude e site2 ''qA'' 3600 [7] 3 0 probedState = TagRun 3 tagReadyState"
  using tagPrelude_site2 [OF assms(1) refl assms(3)] assms(2)
  by (simp add: tagReadyState_def)

theorem failed_submission_continues_witness:
  "queuePrelude downEnv site2 (demandOf [(7, tq7)]) [''LCG.Site.org''] ''qA'' state0 =
     QueueRun queueA 3600 [(7, tq7)] [(''2Processors'', [7], 3)] probedState \<and>
   tagPrelude downEnv site2 ''qA'' 3600 [7] 3 0 probedState = TagRun 3 tagReadyState \<and>
   getExecutable downEnv (trace tagReadyState) ''qA'' 3 = S_OK (''pilot.sh'', 2) \<and>
   submitJob downEnv (trace tagReadyState @ [Executable ''qA'' 3]) ''qA'' ''pilot.sh'' 2
     (processorsOf ''2Processors'') = S_ERROR ''endpoint down'' \<and>
   submitBody downEnv ''qA'' queueA [(7, tq7)] [7] (processorsOf ''2Processors'') (3, 0, tagReadyState) =
     Next (0, 0, refusedState) \<and>
   failedQueues refusedState ''qA'' = failedQueues tagReadyState ''qA'' + 1 \<and>
   totalSubmittedPilots refusedState = totalSubmittedPilots tagReadyState \<and>
   queueLoop 1 downEnv site2 (demandOf [(7, tq7)]) [''LCG.Site.org''] [''qA'', ''qB''] state0 =
     queueLoop 1 downEnv site2 (demandOf [(7, tq7)]) [''LCG.Site.org''] [''qB''] refusedState"
proof -
  have h1: "queuePrelude downEnv site2 (demandOf [(7, tq7)]) [''LCG.Site.org''] ''qA'' state0 =
     QueueRun queueA 3600 [(7, tq7)] ([] @ (''2Processors'', [7], 3) # []) probedState"
    using queuePrelude_site2 [of downEnv] by (simp add: downEnv_def baseEnv_def)
  have h2: "tagLoop 1 downEnv site2 ''qA'' queueA 3600 [(7, tq7)] [] (0, probedState) =
     Some (Next (0, probedState))"
    by simp
  have h3: "tagPrelude downEnv site2 ''qA'' 3600 [7] 3 0 probedState = TagRun 3 tagReadyState"
    by (rule tagPrelude_ready) (simp_all add: downEnv_def baseEnv_def)
  have h4: "loopIter 0 downEnv ''qA'' queueA [(7, tq7)] [7] (processorsOf ''2Processors'')
     (3, 0, tagReadyState) = Some (3, 0, tagReadyState)"
    by simp
  have h5: "(0::nat) < 1" and h6: "(0::int) < 3" by simp_all
  have h7: "getExecutable downEnv (trace tagReadyState) ''qA'' 3 = S_OK (''pilot.sh'', 2)"
    by (simp add: downEnv_def baseEnv_def)
  have h8: "submitJob downEnv (trace tagReadyState @ [Executable ''qA'' 3]) ''qA'' ''pilot.sh'' 2
     (processorsOf ''2Processors'') = S_ERROR ''endpoint down''"
    by (simp add: downEnv_def)
  have h9: "refusedState = failQueue ''qA''
       (tagReadyState\<lparr>trace := trace tagReadyState @
          submitCalls ''qA'' queueA ''pilot.sh'' 2 (processorsOf ''2Processors'') 3\<rparr>)"
    by (rule refusedState_def)
  from failed_submission_continues [OF h1 h2 h3 h4 h5 h6 h7 h8 h9, where queues = "[''qB'']"]
    h1 h3 h7 h8
  show ?thesis by simp
qed

subsection \<open>Failures that end the cycle\<close>

lemma waitingPilots_keeps:
  "waitingPilots e self ids st = (w, st1) \<Longrightarrow> failedQueues st1 = failedQueues st"
  by (auto simp: waitingPilots_def split: if_splits result.splits)

lemma probe_failure:
  assumes "failedQueueCycleFactor self \<noteq> 0"
    and "failedQueues st queue mod failedQueueCycleFactor self = 0"
    and "map_of (queueDict self) queue = Some q"
    and "Tags (ParametersDict q) = Some queueTags"
    and "anySite dm \<or> Site q \<in> jobSites dm"
    and "Site q \<in> set siteMaskList \<or> Site q \<in> testSites dm"
    and "CPUTime (ParametersDict q) = Some v"
    and "py_int v = Inr t"
    and "getCompatiblePlatforms e (trace st) [Platform q] = S_OK compatible"
    and "getMatchingTaskQueues e (trace st @ [CompatiblePlatforms [Platform q]])
           (queueCriteria self q (Site q \<in> set siteMaskList) compatible (processorTagsOf queueTags)) =
         S_ERROR m"
  shows "queueLoop fuel e self dm siteMaskList (queue # queues) st =
           Some (Stop (Returned (S_ERROR m))
             (st\<lparr>trace := trace st @ [CompatiblePlatforms [Platform q],
                MatchingTaskQueues (queueCriteria self q (Site q \<in> set siteMaskList) compatible
                  (processorTagsOf queueTags))]\<rparr>))"
proof -
  have "queuePrelude e self dm siteMaskList queue st =
      QueueStop (Returned (S_ERROR m))
        (st\<lparr>trace := trace st @ [CompatiblePlatforms [Platform q],
            MatchingTaskQueues (queueCriteria self q (Site q \<in> set siteMaskList) compatible
              (processorTagsOf queueTags))]\<rparr>)"
    using assms by (auto simp: queuePrelude_def backoff_pass Let_def emit_def)
  then show ?thesis by (simp add: processQueue_def)
qed

lemma credential_failure:
  assumes "queuePrelude e self dm siteMaskList queue sq = QueueRun q cpu d (done @ (tag, ids, jobs) # bs) sq1"
    and "tagLoop fuel e self queue q cpu d done (0, sq1) = Some (Next (qs0, st0))"
    and "waitingPilots e self ids st0 = (w, st1)"
    and "w < jobs"
    and "getPilotProxyFromDIRACGroup e (trace st1) (cpu + 86400) = S_ERROR m"
  shows "queueLoop fuel e self dm siteMaskList (queue # queues) sq =
           Some (Stop (Returned (S_ERROR m)) (emit (PilotProxy (cpu + 86400)) st1))"
proof -
  have "tagPrelude e self queue cpu ids jobs qs0 st0 =
      TagStop (Returned (S_ERROR m)) (emit (PilotProxy (cpu + 86400)) st1)"
    using assms(3-5) by (simp add: tagPrelude_def Let_def)
  then have "processTag fuel e self queue q cpu d (tag, ids, jobs) (qs0, st0) =
      Some (Stop (Returned (S_ERROR m)) (emit (PilotProxy (cpu + 86400)) st1))"
    by (simp add: processTag_def)
  then show ?thesis
    unfolding queueLoop_at_tag [OF assms(1,2)] by simp
qed

lemma submitJobs_to_queueLoop:
  assumes "getCompatiblePlatforms e (trace st) (platforms self) = S_OK compatible"
    and "collectTags (queueDict self) = Some tags"
    and "getMatchingTaskQueues e (trace st @ [CompatiblePlatforms (platforms self)])
           (globalCriteria self compatible tags) = S_OK tqs"
    and "tqs \<noteq> []"
    and "s3 = emit (CountPilots (map fst tqs))
           (emit (MatchingTaskQueues (globalCriteria self compatible tags))
              (emit (CompatiblePlatforms (platforms self)) st)\<lparr>tqID := Some (fst (last tqs))\<rparr>)"
    and "siteMaskOf e self s3 = (S_OK siteMaskList, s4)"
  shows "submitJobs fuel e self st =
           (case queueLoop fuel e self (demandOf tqs) siteMaskList
                   (random_shuffle e (trace s4) (map fst (queueDict self))) (emit Shuffle s4) of
              None \<Rightarrow> None
            | Some (Next st') \<Rightarrow> Some (Returned (S_OK ()), st')
            | Some (Stop out st') \<Rightarrow> Some (out, st'))"
  using assms by (simp add: submitJobs_def Let_def)

lemma collectTags_site2: "collectTags (queueDict site2) = Some (tags4 @ tags4)"
  by (simp add: site2_def queueA_def params4_tags)

text \<open>
  C2, as stated, fails for the request to the Matcher: on the example site the request
  for the first queue fails, and \<open>submitJobs\<close> returns the error at once. The failure
  counter of the queue is still 0 and the second queue is never looked at.
\<close>

theorem probe_failure_aborts_counterexample:
  "submitJobs 1 matcherFailsEnv site2 state0 = Some (Returned (S_ERROR ''matcher down''), abortedState) \<and>
   failedQueues state0 ''qA'' = 0 \<and> failedQueues abortedState ''qA'' = 0"
proof -
  define s3 where "s3 = emit (CountPilots (map fst [(7::nat, tq7)]))
           (emit (MatchingTaskQueues (globalCriteria site2 [''x86_64''] (tags4 @ tags4)))
              (emit (CompatiblePlatforms (platforms site2)) state0)\<lparr>tqID := Some (fst (last [(7::nat, tq7)]))\<rparr>)"
  define s5 where "s5 = emit Shuffle (emit SiteMask s3)"
  have p: "platforms site2 = [''x86_64'']" "rssFlag site2 = False"
    "map fst (queueDict site2) = [''qA'', ''qB'']"
    by (simp_all add: site2_def)
  have a: "getCompatiblePlatforms matcherFailsEnv (trace state0) (platforms site2) = S_OK [''x86_64'']"
    by (simp add: matcherFailsEnv_def baseEnv_def p)
  have c: "getMatchingTaskQueues matcherFailsEnv (trace state0 @ [CompatiblePlatforms (platforms site2)])
           (globalCriteria site2 [''x86_64''] (tags4 @ tags4)) = S_OK [(7, tq7)]"
    by (simp add: matcherFailsEnv_def globalCriteria_def)
  have m: "siteMaskOf matcherFailsEnv site2 s3 = (S_OK [''LCG.Site.org''], emit SiteMask s3)"
    by (simp add: siteMaskOf_def p matcherFailsEnv_def baseEnv_def)
  have sh: "random_shuffle matcherFailsEnv (trace (emit SiteMask s3)) (map fst (queueDict site2)) = [''qA'', ''qB'']"
    by (simp add: matcherFailsEnv_def baseEnv_def p)
  have f5: "failedQueues s5 ''qA'' = 0"
    by (simp add: s5_def s3_def state0_def)
  have g: "getCompatiblePlatforms matcherFailsEnv (trace s5) [''x86_64''] = S_OK [''x86_64'']"
    by (simp add: matcherFailsEnv_def baseEnv_def)
  have r: "getMatchingTaskQueues matcherFailsEnv (trace s5 @ [CompatiblePlatforms [''x86_64'']]) criteriaA =
      S_ERROR ''matcher down''"
    by (simp add: matcherFailsEnv_def criteriaA_def queueCriteria_def)
  have "queuePrelude matcherFailsEnv site2 (demandOf [(7, tq7)]) [''LCG.Site.org''] ''qA'' s5 =
      QueueStop (Returned (S_ERROR ''matcher down''))
        (s5\<lparr>trace := trace s5 @ [CompatiblePlatforms [''x86_64''], MatchingTaskQueues criteriaA]\<rparr>)"
    using queuePrelude_site2_any [OF f5 g r] by simp
  moreover have "s5\<lparr>trace := trace s5 @ [CompatiblePlatforms [''x86_64''], MatchingTaskQueues criteriaA]\<rparr> =
      abortedState"
    by (simp add: s5_def s3_def abortedState_def emit_def p state0_def)
  ultimately have ql: "queueLoop 1 matcherFailsEnv site2 (demandOf [(7, tq7)]) [''LCG.Site.org'']
      [''qA'', ''qB''] s5 = Some (Stop (Returned (S_ERROR ''matcher down'')) abortedState)"
    by (simp add: processQueue_def)
  have ne: "[(7::nat, tq7)] \<noteq> []" by simp
  have "submitJobs 1 matcherFailsEnv site2 state0 =
      Some (Returned (S_ERROR ''matcher down''), abortedState)"
    by (simp only: submitJobs_to_queueLoop [OF a collectTags_site2 c ne s3_def m] sh
        s5_def [symmetric] ql option.case flow.case)
  then show ?thesis
    by (simp add: abortedState_def state0_def)
qed

text \<open>
  C2, amended. A failure of the request to the Matcher for a queue, or of the request
  for the pilot proxy, makes \<open>submitJobs\<close> return the error at once: no failure counter
  changes, and the remaining tags and queues are not processed in this cycle. A failure
  of the submission to the endpoint adds 1 to the failure counter of the queue and ends
  the loop of the tag; the cycle goes on with the remaining tags of the queue and then
  with the next queue.
\<close>

theorem queue_failures:
  "(failedQueueCycleFactor self \<noteq> 0 \<longrightarrow>
    failedQueues st queue mod failedQueueCycleFactor self = 0 \<longrightarrow>
    map_of (queueDict self) queue = Some q \<longrightarrow>
    Tags (ParametersDict q) = Some queueTags \<longrightarrow>
    anySite dm \<or> Site q \<in> jobSites dm \<longrightarrow>
    Site q \<in> set siteMaskList \<or> Site q \<in> testSites dm \<longrightarrow>
    CPUTime (ParametersDict q) = Some v \<longrightarrow>
    py_int v = Inr t \<longrightarrow>
    getCompatiblePlatforms e (trace st) [Platform q] = S_OK compatible \<longrightarrow>
    getMatchingTaskQueues e (trace st @ [CompatiblePlatforms [Platform q]])
      (queueCriteria self q (Site q \<in> set siteMaskList) compatible (processorTagsOf queueTags)) =
      S_ERROR m \<longrightarrow>
    queueLoop fuel e self dm siteMaskList (queue # queues) st =
      Some (Stop (Returned (S_ERROR m))
        (st\<lparr>trace := trace st @ [CompatiblePlatforms [Platform q],
           MatchingTaskQueues (queueCriteria self q (Site q \<in> set siteMaskList) compatible
             (processorTagsOf queueTags))]\<rparr>))) \<and>
   (queuePrelude e self dm siteMaskList queue sq = QueueRun q cpu d (done @ (tag, ids, jobs) # bs) sq1 \<longrightarrow>
    tagLoop fuel e self queue q cpu d done (0, sq1) = Some (Next (qs0, st0)) \<longrightarrow>
    waitingPilots e self ids st0 = (w, st1) \<longrightarrow>
    w < jobs \<longrightarrow>
    getPilotProxyFromDIRACGroup e (trace st1) (cpu + 86400) = S_ERROR m \<longrightarrow>
    queueLoop fuel e self dm siteMaskList (queue # queues) sq =
      Some (Stop (Returned (S_ERROR m)) (emit (PilotProxy (cpu + 86400)) st1)) \<and>
    failedQueues (emit (PilotProxy (cpu + 86400)) st1) = failedQueues st0) \<and>
   (queuePrelude e self dm siteMaskList queue sq = QueueRun q cpu d (done @ (tag, ids, jobs) # bs) sq1 \<longrightarrow>
    tagLoop fuel e self queue q cpu d done (0, sq1) = Some (Next (qs0, st0)) \<longrightarrow>
    tagPrelude e self queue cpu ids jobs qs0 st0 = TagRun p0 st2 \<longrightarrow>
    loopIter k e queue q d ids (processorsOf tag) (p0, qs0, st2) = Some (p, qs, st3) \<longrightarrow>
    k < fuel \<longrightarrow>
    0 < p \<longrightarrow>
    getExecutable e (trace st3) queue p = S_OK (x, chunk) \<longrightarrow>
    submitJob e (trace st3 @ [Executable queue p]) queue x chunk (processorsOf tag) = S_ERROR m \<longrightarrow>
    st' = failQueue queue (st3\<lparr>trace := trace st3 @ submitCalls queue q x chunk (processorsOf tag) p\<rparr>) \<longrightarrow>
    failedQueues st' = (failedQueues st3)(queue := failedQueues st3 queue + 1) \<and>
    queueLoop fuel e self dm siteMaskList (queue # queues) sq =
      (case tagLoop fuel e self queue q cpu d bs (qs, st') of
         None \<Rightarrow> None
       | Some (Stop out s) \<Rightarrow> Some (Stop out s)
       | Some (Next c2) \<Rightarrow> queueLoop fuel e self dm siteMaskList queues (snd c2)))"
proof (intro conjI impI)
  assume "failedQueueCycleFactor self \<noteq> 0"
    "failedQueues st queue mod failedQueueCycleFactor self = 0"
    "map_of (queueDict self) queue = Some q"
    "Tags (ParametersDict q) = Some queueTags"
    "anySite dm \<or> Site q \<in> jobSites dm"
    "Site q \<in> set siteMaskList \<or> Site q \<in> testSites dm"
    "CPUTime (ParametersDict q) = Some v"
    "py_int v = Inr t"
    "getCompatiblePlatforms e (trace st) [Platform q] = S_OK compatible"
    "getMatchingTaskQueues e (trace st @ [CompatiblePlatforms [Platform q]])
      (queueCriteria self q (Site q \<in> set siteMaskList) compatible (processorTagsOf queueTags)) =
      S_ERROR m"
  then show "queueLoop fuel e self dm siteMaskList (queue # queues) st =
      Some (Stop (Returned (S_ERROR m))
        (st\<lparr>trace := trace st @ [CompatiblePlatforms [Platform q],
           MatchingTaskQueues (queueCriteria self q (Site q \<in> set siteMaskList) compatible
             (processorTagsOf queueTags))]\<rparr>))"
    by (rule probe_failure)
next
  assume a: "queuePrelude e self dm siteMaskList queue sq = QueueRun q cpu d (done @ (tag, ids, jobs) # bs) sq1"
    "tagLoop fuel e self queue q cpu d done (0, sq1) = Some (Next (qs0, st0))"
    "waitingPilots e self ids st0 = (w, st1)"
    "w < jobs"
    "getPilotProxyFromDIRACGroup e (trace st1) (cpu + 86400) = S_ERROR m"
  then show "queueLoop fuel e self dm siteMaskList (queue # queues) sq =
      Some (Stop (Returned (S_ERROR m)) (emit (PilotProxy (cpu + 86400)) st1))"
    by (rule credential_failure)
  show "failedQueues (emit (PilotProxy (cpu + 86400)) st1) = failedQueues st0"
    using waitingPilots_keeps [OF a(3)] by simp
next
  assume "st' = failQueue queue (st3\<lparr>trace := trace st3 @ submitCalls queue q x chunk (processorsOf tag) p\<rparr>)"
  then show "failedQueues st' = (failedQueues st3)(queue := failedQueues st3 queue + 1)"
    by (simp add: failQueue_def)
next
  assume a: "queuePrelude e self dm siteMaskList queue sq = QueueRun q cpu d (done @ (tag, ids, jobs) # bs) sq1"
    "tagLoop fuel e self queue q cpu d done (0, sq1) = Some (Next (qs0, st0))"
    and b: "tagPrelude e self queue cpu ids jobs qs0 st0 = TagRun p0 st2"
    "loopIter k e queue q d ids (processorsOf tag) (p0, qs0, st2) = Some (p, qs, st3)"
    "k < fuel" "0 < p"
    "getExecutable e (trace st3) queue p = S_OK (x, chunk)"
    "submitJob e (trace st3 @ [Executable queue p]) queue x chunk (processorsOf tag) = S_ERROR m"
    and c: "st' = failQueue queue (st3\<lparr>trace := trace st3 @ submitCalls queue q x chunk (processorsOf tag) p\<rparr>)"
  have "processTag fuel e self queue q cpu d (tag, ids, jobs) (qs0, st0) = Some (Next (qs, st'))"
    unfolding c using b by (rule failed_submission)
  then show "queueLoop fuel e self dm siteMaskList (queue # queues) sq =
      (case tagLoop fuel e self queue q cpu d bs (qs, st') of
         None \<Rightarrow> None
       | Some (Stop out s) \<Rightarrow> Some (Stop out s)
       | Some (Next c2) \<Rightarrow> queueLoop fuel e self dm siteMaskList queues (snd c2))"
    unfolding queueLoop_at_tag [OF a] by simp
qed

theorem queue_failures_witness:
  "queueLoop 1 matcherFailsEnv site2 (demandOf [(7, tq7)]) [''LCG.Site.org''] [''qA'', ''qB''] state0 =
     Some (Stop (Returned (S_ERROR ''matcher down''))
       (state0\<lparr>trace := trace state0 @ [CompatiblePlatforms [Platform queueA],
          MatchingTaskQueues (queueCriteria site2 queueA (Site queueA \<in> set [''LCG.Site.org''])
            [''x86_64''] (processorTagsOf tags4))]\<rparr>)) \<and>
   queueLoop 1 noProxyEnv site2 (demandOf [(7, tq7)]) [''LCG.Site.org''] [''qA'', ''qB''] state0 =
     Some (Stop (Returned (S_ERROR ''no proxy'')) (emit (PilotProxy (3600 + 86400)) countedState)) \<and>
   failedQueues (emit (PilotProxy (3600 + 86400)) countedState) = failedQueues probedState \<and>
   failedQueues refusedState = (failedQueues tagReadyState)(''qA'' := failedQueues tagReadyState ''qA'' + 1) \<and>
   queueLoop 1 downEnv site2 (demandOf [(7, tq7)]) [''LCG.Site.org''] [''qA'', ''qB''] state0 =
     queueLoop 1 downEnv site2 (demandOf [(7, tq7)]) [''LCG.Site.org''] [''qB''] refusedState"
proof -
  have a1: "failedQueueCycleFactor site2 \<noteq> 0" by (simp add: site2_def)
  have a2: "failedQueues state0 ''qA'' mod failedQueueCycleFactor site2 = 0" by (simp add: state0_def)
  have a3: "map_of (queueDict site2) ''qA'' = Some queueA" by (simp add: site2_def)
  have a4: "Tags (ParametersDict queueA) = Some tags4" by (simp add: queueA_def params4_tags)
  have a5: "anySite (demandOf [(7, tq7)]) \<or> Site queueA \<in> jobSites (demandOf [(7, tq7)])"
    by (simp add: demand_tq7)
  have a6: "Site queueA \<in> set [''LCG.Site.org''] \<or> Site queueA \<in> testSites (demandOf [(7, tq7)])"
    by (simp add: queueA_def)
  have a7: "CPUTime (ParametersDict queueA) = Some (PyStr ''3600'')" by (simp add: queueA_def params4_def)
  have a8: "py_int (PyStr ''3600'') = Inr 3600" by (rule py_int_small)
  have a9: "getCompatiblePlatforms matcherFailsEnv (trace state0) [Platform queueA] = S_OK [''x86_64'']"
    by (simp add: matcherFailsEnv_def baseEnv_def queueA_def)
  have a10: "getMatchingTaskQueues matcherFailsEnv (trace state0 @ [CompatiblePlatforms [Platform queueA]])
      (queueCriteria site2 queueA (Site queueA \<in> set [''LCG.Site.org'']) [''x86_64''] (processorTagsOf tags4)) =
      S_ERROR ''matcher down''"
    by (simp add: matcherFailsEnv_def queueCriteria_def)
  note part1 = queue_failures [THEN conjunct1, rule_format, OF a1 a2 a3 a4 a5 a6 a7 a8 a9 a10,
      where fuel = 1 and queues = "[''qB'']"]
  have b1: "queuePrelude noProxyEnv site2 (demandOf [(7, tq7)]) [''LCG.Site.org''] ''qA'' state0 =
     QueueRun queueA 3600 [(7, tq7)] ([] @ (''2Processors'', [7], 3) # []) probedState"
    using queuePrelude_site2 [of noProxyEnv] by (simp add: noProxyEnv_def baseEnv_def)
  have b2: "tagLoop 1 noProxyEnv site2 ''qA'' queueA 3600 [(7, tq7)] [] (0, probedState) =
     Some (Next (0, probedState))"
    by simp
  have b3: "waitingPilots noProxyEnv site2 [7] probedState = (0, countedState)"
    by (simp add: waitingPilots_def site2_def noProxyEnv_def baseEnv_def countedState_def emit_def)
  have b4: "(0::int) < 3" by simp
  have b5: "getPilotProxyFromDIRACGroup noProxyEnv (trace countedState) (3600 + 86400) = S_ERROR ''no proxy''"
    by (simp add: noProxyEnv_def)
  note part2 = queue_failures [THEN conjunct2, THEN conjunct1, rule_format, OF b1 b2 b3 b4 b5,
      where queues = "[''qB'']"]
  have c1: "queuePrelude downEnv site2 (demandOf [(7, tq7)]) [''LCG.Site.org''] ''qA'' state0 =
     QueueRun queueA 3600 [(7, tq7)] ([] @ (''2Processors'', [7], 3) # []) probedState"
    using queuePrelude_site2 [of downEnv] by (simp add: downEnv_def baseEnv_def)
  have c2: "tagLoop 1 downEnv site2 ''qA'' queueA 3600 [(7, tq7)] [] (0, probedState) =
     Some (Next (0, probedState))"
    by simp
  have c3: "tagPrelude downEnv site2 ''qA'' 3600 [7] 3 0 probedState = TagRun 3 tagReadyState"
    by (rule tagPrelude_ready) (simp_all add: downEnv_def baseEnv_def)
  have c4: "loopIter 0 downEnv ''qA'' queueA [(7, tq7)] [7] (processorsOf ''2Processors'')
     (3, 0, tagReadyState) = Some (3, 0, tagReadyState)"
    by simp
  have c5: "(0::nat) < 1" and c6: "(0::int) < 3" by simp_all
  have c7: "getExecutable downEnv (trace tagReadyState) ''qA'' 3 = S_OK (''pilot.sh'', 2)"
    by (simp add: downEnv_def baseEnv_def)
  have c8: "submitJob downEnv (trace tagReadyState @ [Executable ''qA'' 3]) ''qA'' ''pilot.sh'' 2
     (processorsOf ''2Processors'') = S_ERROR ''endpoint down''"
    by (simp add: downEnv_def)
  note part3 = queue_failures [THEN conjunct2, THEN conjunct2, rule_format,
      OF c1 c2 c3 c4 c5 c6 c7 c8 refusedState_def, where queues = "[''qB'']"]
  from part1 part2 part3 show ?thesis by simp
qed

subsection \<open>The assignment of pilots to task queues\<close>










end
